theory Spec2Isabelle
  imports Main "HOL-Library.AList"
begin

section \<open>Batching utility (src/src/metrics.ts, chunkArray)\<close>

text \<open>
  \<^verbatim>\<open>array.slice(start, end)\<close> for \<open>0 \<le> start \<le> end\<close>: the elements at the indices
  \<open>start, ..., end - 1\<close> that exist.
\<close>

definition slice :: "'a list \<Rightarrow> nat \<Rightarrow> nat \<Rightarrow> 'a list" where
  "slice array start end = take (end - start) (drop start array)"

text \<open>
  The loop \<^verbatim>\<open>for (let i = 0; i < array.length; i += chunkSize) chunks.push(...)\<close>.
  With \<open>chunkSize = 0\<close> and a non-empty array the loop never ends, so the loop is a
  partial function: \<open>None\<close> is "does not return". The chunk size is a natural number
  (the only caller passes \<open>config.batchSize\<close>, which \<open>loadConfig\<close> sets to 50).
\<close>

partial_function (option) chunkLoop ::
  "'a list \<Rightarrow> nat \<Rightarrow> nat \<Rightarrow> 'a list list \<Rightarrow> 'a list list option" where
  "chunkLoop array chunkSize i chunks =
     (if i < length array
      then chunkLoop array chunkSize (i + chunkSize) (chunks @ [slice array i (i + chunkSize)])
      else Some chunks)"

declare chunkLoop.simps [code]

definition chunkArray :: "'a list \<Rightarrow> nat \<Rightarrow> 'a list list option" where
  "chunkArray array chunkSize = chunkLoop array chunkSize 0 []"

text \<open>The chunks of a list, by structural descent; used to describe what the loop builds.\<close>

function chunksOf :: "nat \<Rightarrow> 'a list \<Rightarrow> 'a list list" where
  "chunksOf b xs = (if b = 0 \<or> xs = [] then [] else take b xs # chunksOf b (drop b xs))"
  by pat_completeness auto
termination
  by (relation "measure (\<lambda>(b, xs). length xs)") auto

declare chunksOf.simps [simp del]

section \<open>What the program takes from its runtime and from the upstream client\<close>

text \<open>
  The JavaScript runtime and the upstream API client (\<^verbatim>\<open>@llimllib/renderapi\<close>) are not code
  of this repository; what the program calls of them is taken as a parameter.
  \<^item> \<open>localeCompare a b\<close> is \<^verbatim>\<open>a.localeCompare(b)\<close>: negative, zero or positive;
  \<^item> \<open>numberToString\<close> renders a number inside a template literal, and \<open>lengthNumber\<close>
    is the number that \<^verbatim>\<open>array.length\<close> yields (the type \<open>'n\<close> stands for \<^verbatim>\<open>number\<close>);
  \<^item> \<open>dateNow\<close> is \<^verbatim>\<open>Date.now()\<close> in milliseconds (read once per scrape) and
    \<open>toISOString\<close> is \<^verbatim>\<open>new Date(ms).toISOString()\<close>.
\<close>

record 'n runtime =
  localeCompare :: "string \<Rightarrow> string \<Rightarrow> int"
  numberToString :: "'n \<Rightarrow> string"
  lengthNumber :: "nat \<Rightarrow> 'n"
  dateNow :: int
  toISOString :: "int \<Rightarrow> string"

text \<open>
  The upstream types. A \<^verbatim>\<open>Service\<close> has an \<^verbatim>\<open>id\<close> and a \<^verbatim>\<open>name\<close>. A \<^verbatim>\<open>MetricLabel\<close> has a
  \<^verbatim>\<open>field\<close> and a \<^verbatim>\<open>value\<close>, each of which the code guards against being undefined
  (\<open>None\<close>). A \<^verbatim>\<open>MetricResponse\<close> has a \<^verbatim>\<open>unit\<close>, \<^verbatim>\<open>labels\<close> (guarded by \<^verbatim>\<open>?.\<close>, so
  possibly undefined) and \<^verbatim>\<open>values\<close>, a list of timestamped numbers.
\<close>

record Service =
  svc_id :: string
  svc_name :: string

record MetricLabel =
  field :: "string option"
  label_value :: "string option"

record 'n DataPoint =
  timestamp :: string
  point_value :: 'n

record 'n MetricResponse =
  resp_unit :: string
  resp_labels :: "MetricLabel list option"
  resp_values :: "'n DataPoint list"

text \<open>
  A metric function of the client, as the function object the code passes around: its
  \<^verbatim>\<open>name\<close> property and what a call settles to (\<open>Inl\<close>: the promise rejects). An entry
  \<open>None\<close> in a response list is a null or undefined element, which
  \<^verbatim>\<open>filter(Boolean)\<close> drops.
\<close>

record ('e, 'n) MetricFn =
  fn_name :: string
  invoke :: "string \<Rightarrow> string list \<Rightarrow> string \<Rightarrow> 'e + 'n MetricResponse option list"

record ('e, 'n) renderapi =
  getServices :: "string \<Rightarrow> string \<Rightarrow> 'e + Service list"
  instanceCount :: "string \<Rightarrow> string list \<Rightarrow> string \<Rightarrow> 'e + 'n MetricResponse option list"
  cpuUsage :: "string \<Rightarrow> string list \<Rightarrow> string \<Rightarrow> 'e + 'n MetricResponse option list"
  memoryUsage :: "string \<Rightarrow> string list \<Rightarrow> string \<Rightarrow> 'e + 'n MetricResponse option list"
  bandwidth :: "string \<Rightarrow> string list \<Rightarrow> string \<Rightarrow> 'e + 'n MetricResponse option list"
  activeConnections :: "string \<Rightarrow> string list \<Rightarrow> string \<Rightarrow> 'e + 'n MetricResponse option list"

section \<open>Strings and arrays of the runtime\<close>

text \<open>\<^verbatim>\<open>array.join(sep)\<close> on an array of strings.\<close>

fun join :: "string \<Rightarrow> string list \<Rightarrow> string" where
  "join sep [] = []"
| "join sep [x] = x"
| "join sep (x # y # ys) = x @ sep @ join sep (y # ys)"

text \<open>\<^verbatim>\<open>s.startsWith(p)\<close>.\<close>

definition startsWith :: "string \<Rightarrow> string \<Rightarrow> bool" where
  "startsWith s p = (take (length p) s = p)"

text \<open>
  \<^verbatim>\<open>array.sort(compareFn)\<close>: a stable sort; an element goes before the first element
  that the comparison does not put before it. (For a comparison that is not consistent the
  language leaves the order to the implementation; this is the insertion order then.)
\<close>

fun insert_cmp :: "('a \<Rightarrow> 'a \<Rightarrow> int) \<Rightarrow> 'a \<Rightarrow> 'a list \<Rightarrow> 'a list" where
  "insert_cmp cmp x [] = [x]"
| "insert_cmp cmp x (y # ys) = (if cmp x y \<le> 0 then x # y # ys else y # insert_cmp cmp x ys)"

definition sort_cmp :: "('a \<Rightarrow> 'a \<Rightarrow> int) \<Rightarrow> 'a list \<Rightarrow> 'a list" where
  "sort_cmp cmp xs = foldr (insert_cmp cmp) xs []"

text \<open>
  \<^verbatim>\<open>a || d\<close> on a possibly undefined string: the empty string is falsy, as undefined is.
\<close>

definition orDefault :: "string option \<Rightarrow> string \<Rightarrow> string" where
  "orDefault a d = (case a of None \<Rightarrow> d | Some s \<Rightarrow> if s = [] then d else s)"

text \<open>
  \<^verbatim>\<open>Promise.all\<close>: the results in order when every promise fulfils, a rejection
  otherwise (the model takes the rejection of the first promise in the array that rejects;
  the runtime takes the first in time).
\<close>

fun promiseAll :: "('e + 'a) list \<Rightarrow> 'e + 'a list" where
  "promiseAll [] = Inr []"
| "promiseAll (Inl e # ps) = Inl e"
| "promiseAll (Inr x # ps) = (case promiseAll ps of Inl e \<Rightarrow> Inl e | Inr xs \<Rightarrow> Inr (x # xs))"

text \<open>\<^verbatim>\<open>filter(Boolean)\<close> and \<^verbatim>\<open>filter((x) => x != null)\<close> on a list with null entries.\<close>

fun nonNull :: "'a option list \<Rightarrow> 'a list" where
  "nonNull [] = []"
| "nonNull (None # xs) = nonNull xs"
| "nonNull (Some x # xs) = x # nonNull xs"

section \<open>Metric families (src/src/metrics.ts)\<close>

text \<open>
  \<^verbatim>\<open>MetricDefinition\<close> objects live in a store, because \<^verbatim>\<open>collectMetrics\<close> receives a
  reference to one and writes to a copy of it: a reference is an index of the store, and
  a new object goes to its end. \<^verbatim>\<open>Record<string, string>\<close> is the list of the object's
  entries in the order \<^verbatim>\<open>Object.entries\<close> lists them, with unique keys.
\<close>

record MetricDefinition =
  name :: string
  help_text :: string
  metric_type :: string

record 'n MetricValue =
  labels :: "(string \<times> string) list"
  val :: 'n

record 'n MetricResult =
  definition_ref :: nat
  result_values :: "'n MetricValue list"

type_synonym query = "string \<times> string \<times> string list \<times> string"

text \<open>
  The state a scrape works on: the store of definitions, and the upstream queries issued
  so far (function name, token, identifiers, window start). Log output is not modelled.
\<close>

record world =
  heap :: "MetricDefinition list"
  queries :: "query list"

definition alloc :: "MetricDefinition list \<Rightarrow> MetricDefinition \<Rightarrow> MetricDefinition list \<times> nat" where
  "alloc h d = (h @ [d], length h)"

definition newline :: string where
  "newline = [CHR 0x0A]"

definition dquote :: string where
  "dquote = [CHR 0x22]"

definition formatMetricHeader :: "MetricDefinition \<Rightarrow> string" where
  "formatMetricHeader metric =
     ''# HELP '' @ name metric @ '' '' @ help_text metric @ newline
     @ ''# TYPE '' @ name metric @ '' '' @ metric_type metric @ newline"

text \<open>
  The label text of one point, the constant \<^verbatim>\<open>labels\<close> of \<^verbatim>\<open>formatMetricValues\<close>:
  \<^verbatim>\<open>Object.entries(value.labels).sort(([keyA], [keyB]) => keyA.localeCompare(keyB))
       .map(([key, val]) => `${key}="${val}"`).join(", ")\<close>
\<close>

definition sortedEntries :: "'n runtime \<Rightarrow> (string \<times> string) list \<Rightarrow> (string \<times> string) list" where
  "sortedEntries rt entries = sort_cmp (\<lambda>a b. localeCompare rt (fst a) (fst b)) entries"

definition formatLabels :: "'n runtime \<Rightarrow> (string \<times> string) list \<Rightarrow> string" where
  "formatLabels rt entries =
     join '', '' (map (\<lambda>(key, v). key @ ''='' @ dquote @ v @ dquote) (sortedEntries rt entries))"

definition formatMetricValues :: "'n runtime \<Rightarrow> string \<Rightarrow> 'n MetricValue list \<Rightarrow> string" where
  "formatMetricValues rt metricName vs =
     join newline
       (map (\<lambda>v. metricName @ ''{'' @ formatLabels rt (labels v) @ ''} '' @ numberToString rt (val v)) vs)
     @ newline"

text \<open>
  What is assumed of \<^verbatim>\<open>localeCompare\<close> where the order of the output matters: on the
  keys at hand it is a strict linear order (zero only for equal keys, antisymmetric,
  transitive).
\<close>

definition ordersStrictly :: "('a \<Rightarrow> 'a \<Rightarrow> int) \<Rightarrow> 'a list \<Rightarrow> bool" where
  "ordersStrictly cmp ks =
     (\<forall>a \<in> set ks. \<forall>b \<in> set ks.
        (cmp a b = 0 \<longleftrightarrow> a = b) \<and> (cmp a b < 0 \<longleftrightarrow> 0 < cmp b a)
        \<and> (\<forall>c \<in> set ks. cmp a b < 0 \<and> cmp b c < 0 \<longrightarrow> cmp a c < 0))"

text \<open>
  The body of the \<^verbatim>\<open>forEach\<close> over a series' labels:
  \<^verbatim>\<open>if (label.field && label.value !== undefined) labels[label.field] = String(label.value)\<close>.
  \<open>labels\<close> is an object literal, so it inherits from \<^verbatim>\<open>Object.prototype\<close>: an assignment to
  the key \<^verbatim>\<open>__proto__\<close> runs the inherited setter, which ignores a string, and makes no
  entry. Every other key is written as an entry of its own.
\<close>

definition addLabel :: "(string \<times> string) list \<Rightarrow> MetricLabel \<Rightarrow> (string \<times> string) list" where
  "addLabel acc label =
     (case field label of
        None \<Rightarrow> acc
      | Some f \<Rightarrow>
          (case label_value label of
             None \<Rightarrow> acc
           | Some v \<Rightarrow>
               if f = [] then acc
               else if f = ''__proto__'' then acc
               else AList.update f v acc))"

text \<open>
  The body of the \<^verbatim>\<open>forEach\<close> over the returned series: the point a series contributes,
  \<open>None\<close> when the series is skipped.
\<close>

definition seriesPoint :: "(string \<rightharpoonup> Service) \<Rightarrow> 'n MetricResponse \<Rightarrow> 'n MetricValue option" where
  "seriesPoint serviceMap metric =
     (case resp_labels metric of
        None \<Rightarrow> None
      | Some ls \<Rightarrow>
          if length ls > 0 \<and> length (resp_values metric) > 0 then
            let latestValue = point_value (resp_values metric ! (length (resp_values metric) - 1));
                resource = orDefault (Option.bind (find (\<lambda>x. field x = Some ''resource'') ls) label_value) [];
                labels0 = [(''unit'', resp_unit metric),
                           (''service_name'', orDefault (map_option svc_name (serviceMap resource)) ''unknown'')]
            in Some \<lparr>labels = foldl addLabel labels0 ls, val = latestValue\<rparr>
          else None)"

text \<open>
  What \<^verbatim>\<open>collectMetrics\<close> rejects with: \<open>UpstreamCallFailure e\<close> is the value \<open>e\<close> that a
  batch query rejected with, which \<^verbatim>\<open>Promise.all\<close> and the \<^verbatim>\<open>await\<close> pass on as it is;
  \<open>EmptyMetricsResult msg\<close> is the object \<^verbatim>\<open>new Error(msg)\<close> that the function throws
  itself. The code has no error classes: the second is known by its message.
\<close>

datatype 'e error = UpstreamCallFailure 'e | EmptyMetricsResult string

text \<open>\<^verbatim>\<open>labels["unit"]\<close> inside a template literal.\<close>

definition getProp :: "(string \<times> string) list \<Rightarrow> string \<Rightarrow> string" where
  "getProp entries key = (case map_of entries key of None \<Rightarrow> ''undefined'' | Some v \<Rightarrow> v)"

definition laquo :: string where
  "laquo = [CHR 0xC2, CHR 0xAB]"

definition raquo :: string where
  "raquo = [CHR 0xC2, CHR 0xBB]"

definition emptyMessage :: "string \<Rightarrow> Service list \<Rightarrow> string" where
  "emptyMessage fname services =
     ''Empty metrics result '' @ fname @ '' ''
     @ join '','' (map (\<lambda>svc. laquo @ svc_id svc @ '' '' @ svc_name svc @ raquo) services)"

definition serviceMapOf :: "Service list \<Rightarrow> (string \<rightharpoonup> Service)" where
  "serviceMapOf services = foldl (\<lambda>m service. m(svc_id service \<mapsto> service)) Map.empty services"

text \<open>
  \<^verbatim>\<open>collectMetrics\<close>. \<open>None\<close>: the call does not return (the batching loop with batch
  size 0). Every batch query is issued before any is awaited, so all of them are in
  \<open>queries\<close> also when one rejects.
\<close>

definition collectMetrics ::
  "'n runtime \<Rightarrow> world \<Rightarrow> Service list \<Rightarrow> string \<Rightarrow> nat \<Rightarrow> ('e, 'n) MetricFn \<Rightarrow> nat \<Rightarrow> string option
     \<Rightarrow> (world \<times> ('e error + 'n MetricResult)) option" where
  "collectMetrics rt w services apiToken batchSize metricFn metricDefinition startTime =
     (let serviceMap = serviceMapOf services in
      case chunkArray (map svc_id services) batchSize of
        None \<Rightarrow> None
      | Some idBatches \<Rightarrow>
          let twoMinutesAgo = toISOString rt (dateNow rt - 2 * 60 * 1000);
              start = orDefault startTime twoMinutesAgo;
              w1 = w\<lparr>queries := queries w
                       @ map (\<lambda>batch. (fn_name metricFn, apiToken, batch, start)) idBatches\<rparr>
          in (case promiseAll (map (\<lambda>batch. invoke metricFn apiToken batch start) idBatches) of
               Inl e \<Rightarrow> Some (w1, Inl (UpstreamCallFailure e))
             | Inr allMetricsResults \<Rightarrow>
                 let vs = List.map_filter (seriesPoint serviceMap) (nonNull (concat allMetricsResults))
                 in if length vs = 0
                    then Some (w1, Inl (EmptyMetricsResult (emptyMessage (fn_name metricFn) services)))
                    else
                      let (h1, updatedDefinition) = alloc (heap w1) (heap w1 ! metricDefinition);
                          h2 = list_update h1 updatedDefinition ((h1 ! updatedDefinition)
                                 \<lparr>name := name (h1 ! updatedDefinition) @ ''_'' @ getProp (labels (vs ! 0)) ''unit''\<rparr>)
                      in Some (w1\<lparr>heap := h2\<rparr>, Inr \<lparr>definition_ref = updatedDefinition, result_values = vs\<rparr>)))"

definition collectServiceCountMetric :: "'n runtime \<Rightarrow> world \<Rightarrow> Service list \<Rightarrow> world \<times> 'n MetricResult" where
  "collectServiceCountMetric rt w services =
     (let (h, d) = alloc (heap w)
            \<lparr>name = ''render_service_count'', help_text = ''Total number of services'',
             metric_type = ''gauge''\<rparr>
      in (w\<lparr>heap := h\<rparr>,
          \<lparr>definition_ref = d,
           result_values = [\<lparr>labels = [], val = lengthNumber rt (length services)\<rparr>]\<rparr>))"

definition collectInstanceCountMetrics ::
  "'n runtime \<Rightarrow> ('e, 'n) renderapi \<Rightarrow> world \<Rightarrow> Service list \<Rightarrow> string \<Rightarrow> nat
     \<Rightarrow> (world \<times> ('e error + 'n MetricResult)) option" where
  "collectInstanceCountMetrics rt api w services apiToken batchSize =
     (let (h, d) = alloc (heap w)
            \<lparr>name = ''render_service_instance_count'',
             help_text = ''Current number of instances for a Render service'',
             metric_type = ''gauge''\<rparr>
      in collectMetrics rt (w\<lparr>heap := h\<rparr>) services apiToken batchSize
           \<lparr>fn_name = ''instanceCount'', invoke = instanceCount api\<rparr> d None)"

definition collectCPUMetrics ::
  "'n runtime \<Rightarrow> ('e, 'n) renderapi \<Rightarrow> world \<Rightarrow> Service list \<Rightarrow> string \<Rightarrow> nat
     \<Rightarrow> (world \<times> ('e error + 'n MetricResult)) option" where
  "collectCPUMetrics rt api w services apiToken batchSize =
     (let (h, d) = alloc (heap w)
            \<lparr>name = ''render_service_cpu_usage'', help_text = ''CPU usage for a Render service'',
             metric_type = ''gauge''\<rparr>
      in collectMetrics rt (w\<lparr>heap := h\<rparr>) services apiToken batchSize
           \<lparr>fn_name = ''cpuUsage'', invoke = cpuUsage api\<rparr> d None)"

definition collectMemoryMetrics ::
  "'n runtime \<Rightarrow> ('e, 'n) renderapi \<Rightarrow> world \<Rightarrow> Service list \<Rightarrow> string \<Rightarrow> nat
     \<Rightarrow> (world \<times> ('e error + 'n MetricResult)) option" where
  "collectMemoryMetrics rt api w services apiToken batchSize =
     (let (h, d) = alloc (heap w)
            \<lparr>name = ''render_service_memory_usage'',
             help_text = ''Memory usage for a Render service in bytes'',
             metric_type = ''gauge''\<rparr>
      in collectMetrics rt (w\<lparr>heap := h\<rparr>) services apiToken batchSize
           \<lparr>fn_name = ''memoryUsage'', invoke = memoryUsage api\<rparr> d None)"

definition collectBandwidth ::
  "'n runtime \<Rightarrow> ('e, 'n) renderapi \<Rightarrow> world \<Rightarrow> Service list \<Rightarrow> string \<Rightarrow> nat
     \<Rightarrow> (world \<times> ('e error + 'n MetricResult)) option" where
  "collectBandwidth rt api w services apiToken batchSize =
     (let (h, d) = alloc (heap w)
            \<lparr>name = ''render_service_bandwidth'', help_text = ''Bandwidth used by a render service'',
             metric_type = ''gauge''\<rparr>;
          w0 = w\<lparr>heap := h\<rparr>;
          relevantServices = filter (\<lambda>svc. startsWith (svc_id svc) ''srv-'') services
      in if length relevantServices = 0
         then Some (w0, Inr \<lparr>definition_ref = d, result_values = []\<rparr>)
         else
           let hourAgo = toISOString rt (dateNow rt - 60 * 60 * 1000)
           in collectMetrics rt w0 relevantServices apiToken batchSize
                \<lparr>fn_name = ''bandwidth'', invoke = bandwidth api\<rparr> d (Some hourAgo))"

definition collectActiveConnections ::
  "'n runtime \<Rightarrow> ('e, 'n) renderapi \<Rightarrow> world \<Rightarrow> Service list \<Rightarrow> string \<Rightarrow> nat
     \<Rightarrow> (world \<times> ('e error + 'n MetricResult)) option" where
  "collectActiveConnections rt api w services apiToken batchSize =
     (let (h, d) = alloc (heap w)
            \<lparr>name = ''render_service_active_connections'',
             help_text = ''Active connections for redis or postgres servers'',
             metric_type = ''gauge''\<rparr>;
          w0 = w\<lparr>heap := h\<rparr>;
          relevantServices =
            filter (\<lambda>svc. startsWith (svc_id svc) ''red-'' \<or> startsWith (svc_id svc) ''dpg-'') services
      in if length relevantServices = 0
         then Some (w0, Inr \<lparr>definition_ref = d, result_values = []\<rparr>)
         else collectMetrics rt w0 relevantServices apiToken batchSize
                \<lparr>fn_name = ''activeConnections'', invoke = activeConnections api\<rparr> d None)"

definition formatMetricResult :: "'n runtime \<Rightarrow> MetricDefinition list \<Rightarrow> 'n MetricResult \<Rightarrow> string" where
  "formatMetricResult rt h result =
     (if length (result_values result) = 0 then []
      else formatMetricHeader (h ! definition_ref result)
           @ formatMetricValues rt (name (h ! definition_ref result)) (result_values result))"

section \<open>The metrics handler (src/src/metrics.ts, createMetricsHandler)\<close>

record Config =
  renderApiToken :: string
  serviceNameFilter :: string
  batchSize :: nat

text \<open>
  What the handler answers: the status code, the Content-Type header when the handler
  sets one, and the body.
\<close>

record Response =
  status :: nat
  contentType :: "string option"
  body :: string

text \<open>\<^verbatim>\<open>promise.catch((err) => { logger.error(...); return null; })\<close>.\<close>

definition catchNull :: "'e + 'a \<Rightarrow> 'a option" where
  "catchNull r = (case r of Inl err \<Rightarrow> None | Inr x \<Rightarrow> Some x)"

text \<open>
  The array given to \<^verbatim>\<open>Promise.all\<close> in the handler: the six collectors, launched in this
  order, each but the service count with its rejection turned into null.
\<close>

definition launchCollectors ::
  "'n runtime \<Rightarrow> ('e, 'n) renderapi \<Rightarrow> Config \<Rightarrow> world \<Rightarrow> Service list
     \<Rightarrow> (world \<times> 'n MetricResult option list) option" where
  "launchCollectors rt api config w services =
     Option.bind (collectInstanceCountMetrics rt api w services (renderApiToken config) (batchSize config))
       (\<lambda>(w1, r1).
     case collectServiceCountMetric rt w1 services of (w2, r2) \<Rightarrow>
     Option.bind (collectCPUMetrics rt api w2 services (renderApiToken config) (batchSize config))
       (\<lambda>(w3, r3).
     Option.bind (collectMemoryMetrics rt api w3 services (renderApiToken config) (batchSize config))
       (\<lambda>(w4, r4).
     Option.bind (collectBandwidth rt api w4 services (renderApiToken config) (batchSize config))
       (\<lambda>(w5, r5).
     Option.bind (collectActiveConnections rt api w5 services (renderApiToken config) (batchSize config))
       (\<lambda>(w6, r6).
     Some (w6, [catchNull r1, Some r2, catchNull r3, catchNull r4, catchNull r5, catchNull r6]))))))"

text \<open>The handler from the all-failed check to the reply.\<close>

definition replyFor :: "'n runtime \<Rightarrow> MetricDefinition list \<Rightarrow> 'n MetricResult option list \<Rightarrow> Response" where
  "replyFor rt h metricResults =
     (if length (nonNull metricResults) = 0
      then \<lparr>status = 500, contentType = None,
            body = ''Error fetching metrics: all collectors failed''\<rparr>
      else
        let metricsOutput =
              join newline
                (filter (\<lambda>output. length output > 0)
                   (map (formatMetricResult rt h) (nonNull metricResults)))
        in \<lparr>status = 200, contentType = Some ''text/plain'', body = metricsOutput\<rparr>)"

definition metrics ::
  "'n runtime \<Rightarrow> ('e, 'n) renderapi \<Rightarrow> Config \<Rightarrow> world \<Rightarrow> (world \<times> Response) option" where
  "metrics rt api config w =
     (case getServices api (renderApiToken config) (serviceNameFilter config) of
        Inl err \<Rightarrow> Some (w, \<lparr>status = 500, contentType = None, body = ''Error fetching metrics''\<rparr>)
      | Inr services \<Rightarrow>
          (case launchCollectors rt api config w services of
             None \<Rightarrow> None
           | Some (w', metricResults) \<Rightarrow> Some (w', replyFor rt (heap w') metricResults)))"

section \<open>The resource cache (src/src/resourceCache.ts)\<close>

text \<open>
  The fields of a \<^verbatim>\<open>ResourceCache\<close>, and \<open>scheduled\<close>, the pending timers (see
  below). Redis and Postgres instances are values of the client's types \<open>'r\<close> and
  \<open>'p\<close>.
\<close>

record ('r, 'p) ResourceCache =
  services :: "Service list"
  redises :: "'r list"
  postgreses :: "'p list"
  lastRefreshed :: "int option"
  apiToken :: string
  cacheNameFilter :: string
  maxAge :: int
  scheduled :: nat

record ('e, 'r, 'p) resourceapi =
  fetchServices :: "string \<Rightarrow> string \<Rightarrow> 'e + Service list"
  listRedis :: "string \<Rightarrow> string \<Rightarrow> 'e + 'r list"
  listPostgres :: "string \<Rightarrow> string \<Rightarrow> 'e + 'p list"

definition newResourceCache :: "string \<Rightarrow> string \<Rightarrow> int \<Rightarrow> ('r, 'p) ResourceCache" where
  "newResourceCache token nameFilter maxAgeMs =
     \<lparr>services = [], redises = [], postgreses = [], lastRefreshed = None,
      apiToken = token, cacheNameFilter = nameFilter, maxAge = maxAgeMs, scheduled = 0\<rparr>"

definition isStale :: "int \<Rightarrow> ('r, 'p) ResourceCache \<Rightarrow> bool" where
  "isStale now c = (case lastRefreshed c of None \<Rightarrow> True | Some t \<Rightarrow> now - t > maxAge c)"

text \<open>
  \<^verbatim>\<open>refreshResources\<close>, given what the three list calls settle to and the time at which
  they have: the cache after it, and \<open>Inl\<close> the error it rethrows.
\<close>

definition refreshResources ::
  "('e, 'r, 'p) resourceapi \<Rightarrow> int \<Rightarrow> ('r, 'p) ResourceCache \<Rightarrow> ('r, 'p) ResourceCache \<times> ('e + unit)" where
  "refreshResources api now c =
     (case fetchServices api (apiToken c) (cacheNameFilter c) of
        Inl e \<Rightarrow> (c, Inl e)
      | Inr newServices \<Rightarrow>
          (case listRedis api (apiToken c) (cacheNameFilter c) of
             Inl e \<Rightarrow> (c, Inl e)
           | Inr newRedises \<Rightarrow>
               (case listPostgres api (apiToken c) (cacheNameFilter c) of
                  Inl e \<Rightarrow> (c, Inl e)
                | Inr newPostgreses \<Rightarrow>
                    (c\<lparr>services := newServices, redises := newRedises,
                       postgreses := newPostgreses, lastRefreshed := Some now\<rparr>, Inr ()))))"

definition getResources ::
  "int \<Rightarrow> ('r, 'p) ResourceCache \<Rightarrow> ('r, 'p) ResourceCache \<times> (Service list \<times> 'r list \<times> 'p list)" where
  "getResources now c =
     ((if isStale now c then c\<lparr>scheduled := scheduled c + 1\<rparr> else c),
      (services c, redises c, postgreses c))"

text \<open>
  The fields of the record above are those of the class, but for \<open>scheduled\<close>: the
  timers that \<^verbatim>\<open>getResources\<close> has set with \<^verbatim>\<open>setTimeout\<close> and that have not fired yet.

  What happens to a process that holds a cache: a reader calls \<^verbatim>\<open>getResources\<close>, or a
  timer fires and its callback \<^verbatim>\<open>() => this.refreshResources()\<close> runs against the upstream
  as it is then (nothing else in the repository calls \<^verbatim>\<open>refreshResources\<close>). The callback
  drops the promise, and \<^verbatim>\<open>refreshResources\<close> rethrows what it catches: a refresh that
  fails is an unhandled rejection, on which Node (at its default, and the repository
  installs no handler) ends the process. \<open>run\<close> gives the cache after a sequence of such
  events, \<open>None\<close> when the process has ended, and what each event that took place
  produced, in order: the snapshot a reader was given, or how a refresh settled.
\<close>

datatype ('e, 'r, 'p) event =
  Get int
| TimerFires "('e, 'r, 'p) resourceapi" int

datatype ('e, 'r, 'p) outcome =
  Returned "Service list \<times> 'r list \<times> 'p list"
| Settled "'e + unit"

fun run ::
  "('e, 'r, 'p) event list \<Rightarrow> ('r, 'p) ResourceCache
     \<Rightarrow> ('r, 'p) ResourceCache option \<times> ('e, 'r, 'p) outcome list" where
  "run [] c = (Some c, [])"
| "run (Get now # evs) c =
     (case getResources now c of (c1, snapshot) \<Rightarrow>
        (case run evs c1 of (c2, outs) \<Rightarrow> (c2, Returned snapshot # outs)))"
| "run (TimerFires api now # evs) c =
     (if scheduled c = 0 then run evs c
      else
        (case refreshResources api now (c\<lparr>scheduled := scheduled c - 1\<rparr>) of
           (c1, Inl e) \<Rightarrow> (None, [Settled (Inl e)])
         | (c1, Inr u) \<Rightarrow>
             (case run evs c1 of (c2, outs) \<Rightarrow> (c2, Settled (Inr u) # outs))))"

section \<open>A runtime for the examples\<close>

text \<open>
  The examples run on integers for numbers, rendered in decimal, and on the comparison of
  strings by character code for \<^verbatim>\<open>localeCompare\<close>.
\<close>

function showNat :: "nat \<Rightarrow> string" where
  "showNat n =
     (if n < 10 then [char_of (48 + n)] else showNat (n div 10) @ [char_of (48 + n mod 10)])"
  by pat_completeness auto
termination
  by (relation "measure id") auto

declare showNat.simps [simp del]

definition showInt :: "int \<Rightarrow> string" where
  "showInt i = (if i < 0 then ''-'' @ showNat (nat (- i)) else showNat (nat i))"

fun compareCodes :: "string \<Rightarrow> string \<Rightarrow> int" where
  "compareCodes [] [] = 0"
| "compareCodes [] (y # ys) = - 1"
| "compareCodes (x # xs) [] = 1"
| "compareCodes (x # xs) (y # ys) =
     (if (of_char x :: nat) < of_char y then - 1
      else if (of_char y :: nat) < of_char x then 1
      else compareCodes xs ys)"

definition exampleRuntime :: "int \<Rightarrow> int runtime" where
  "exampleRuntime now =
     \<lparr>localeCompare = compareCodes, numberToString = showInt, lengthNumber = int,
      dateNow = now, toISOString = showInt\<rparr>"

text \<open>
  An upstream for the examples: two resources; instance counts, CPU usage and active
  connections answer with one series per identifier, the memory query is rejected, and the
  bandwidth query answers with series that carry no labels and no data points.
\<close>

definition exampleServices :: "Service list" where
  "exampleServices =
     [\<lparr>svc_id = ''srv-1'', svc_name = ''web''\<rparr>, \<lparr>svc_id = ''red-1'', svc_name = ''cache''\<rparr>]"

definition exampleSeries :: "string \<Rightarrow> string \<Rightarrow> int MetricResponse option" where
  "exampleSeries u r =
     Some \<lparr>resp_unit = u,
           resp_labels = Some [\<lparr>field = Some ''resource'', label_value = Some r\<rparr>],
           resp_values = [\<lparr>timestamp = ''t0'', point_value = 1\<rparr>,
                          \<lparr>timestamp = ''t1'', point_value = 5\<rparr>]\<rparr>"

definition exampleApi :: "(string, int) renderapi" where
  "exampleApi =
     \<lparr>getServices = (\<lambda>token nameFilter. Inr exampleServices),
      instanceCount = (\<lambda>token ids start. Inr (map (exampleSeries ''count'') ids)),
      cpuUsage = (\<lambda>token ids start. Inr (map (exampleSeries ''percent'') ids)),
      memoryUsage = (\<lambda>token ids start. Inl ''timeout''),
      bandwidth = (\<lambda>token ids start.
         Inr (map (\<lambda>r. Some \<lparr>resp_unit = ''bytes'', resp_labels = Some [], resp_values = []\<rparr>) ids)),
      activeConnections = (\<lambda>token ids start. Inr (map (exampleSeries ''connections'') ids))\<rparr>"


definition exampleWorld :: world where
  "exampleWorld =
     \<lparr>heap = [\<lparr>name = ''render_service_cpu_usage'', help_text = ''CPU usage for a Render service'',
               metric_type = ''gauge''\<rparr>],
      queries = []\<rparr>"




text \<open>
  A runtime whose \<^verbatim>\<open>localeCompare\<close> does what the language standard asks of it on
  canonically equivalent strings: it returns 0 for them. The two keys are the letter e with
  an acute accent, as one code point (U+00E9) and as the letter followed by the combining
  accent (U+0065 U+0301), both written in UTF-8; \<open>composed\<close> puts the second form into
  the first.
\<close>

definition eAcute :: string where
  "eAcute = [CHR 0xC3, CHR 0xA9]"

definition eCombining :: string where
  "eCombining = [CHR 0x65, CHR 0xCC, CHR 0x81]"

fun composed :: "string \<Rightarrow> string" where
  "composed (a # b # c # rest) =
     (if [a, b, c] = [CHR 0x65, CHR 0xCC, CHR 0x81]
      then CHR 0xC3 # CHR 0xA9 # composed rest
      else a # composed (b # c # rest))"
| "composed cs = cs"

definition collatingRuntime :: "int runtime" where
  "collatingRuntime =
     \<lparr>localeCompare = (\<lambda>a b. compareCodes (composed a) (composed b)),
      numberToString = showInt, lengthNumber = int, dateNow = 0, toISOString = showInt\<rparr>"

text \<open>
  A metric function for the examples that answers every batch with four entries: a series
  for srv-1 whose labels also give a unit, a null entry, a series with no labels and no
  data points, and a series for a resource that is not in the list.
\<close>

definition exampleMixed :: "(string, int) MetricFn" where
  "exampleMixed =
     \<lparr>fn_name = ''cpuUsage'',
      invoke = (\<lambda>token ids start. Inr
        [Some \<lparr>resp_unit = ''percent'',
               resp_labels = Some [\<lparr>field = Some ''resource'', label_value = Some ''srv-1''\<rparr>,
                                   \<lparr>field = Some ''unit'', label_value = Some ''ratio''\<rparr>],
               resp_values = [\<lparr>timestamp = ''t0'', point_value = 1\<rparr>,
                              \<lparr>timestamp = ''t1'', point_value = 5\<rparr>]\<rparr>,
         None,
         Some \<lparr>resp_unit = ''percent'', resp_labels = Some [], resp_values = []\<rparr>,
         Some \<lparr>resp_unit = ''percent'',
               resp_labels = Some [\<lparr>field = Some ''resource'', label_value = Some ''srv-9''\<rparr>],
               resp_values = [\<lparr>timestamp = ''t0'', point_value = 7\<rparr>]\<rparr>])\<rparr>"

section \<open>The batching loop\<close>

lemma chunkLoop_chunksOf:
  "0 < b \<Longrightarrow> chunkLoop xs b i acc = Some (acc @ chunksOf b (drop i xs))"
proof (induction "length xs - i" arbitrary: i acc rule: less_induct)
  case less
  show ?case
  proof (cases "i < length xs")
    case True
    have step: "length xs - (i + b) < length xs - i"
      using True less.prems by arith
    have "chunkLoop xs b i acc = chunkLoop xs b (i + b) (acc @ [slice xs i (i + b)])"
      using True by (subst chunkLoop.simps) simp
    also have "\<dots> = Some ((acc @ [slice xs i (i + b)]) @ chunksOf b (drop (i + b) xs))"
      by (rule less.hyps [OF step less.prems])
    also have "chunksOf b (drop i xs) = take b (drop i xs) # chunksOf b (drop (i + b) xs)"
      using True less.prems by (subst chunksOf.simps) (simp add: add.commute)
    then have "(acc @ [slice xs i (i + b)]) @ chunksOf b (drop (i + b) xs)
        = acc @ chunksOf b (drop i xs)"
      by (simp add: slice_def)
    finally show ?thesis .
  next
    case False
    then have "chunkLoop xs b i acc = Some acc"
      by (subst chunkLoop.simps) simp
    moreover have "chunksOf b (drop i xs) = []"
      using False by (subst chunksOf.simps) simp
    ultimately show ?thesis by simp
  qed
qed

lemma concat_chunksOf: "0 < b \<Longrightarrow> concat (chunksOf b xs) = xs"
proof (induction b xs rule: chunksOf.induct)
  case (1 b xs)
  then show ?case
    by (subst chunksOf.simps) auto
qed

lemma div_add_step: "0 < (b::nat) \<Longrightarrow> (m + b) div b = Suc (m div b)"
  using div_add_self2 [of b m] by simp

lemma ceil_step:
  assumes "0 < (b::nat)" "0 < n"
  shows "Suc ((n - b + b - 1) div b) = (n + b - 1) div b"
proof -
  obtain m where m: "n = Suc m" using assms(2) by (cases n) auto
  have r: "(n + b - 1) div b = Suc (m div b)"
    using m div_add_step [OF assms(1), of m] by simp
  show ?thesis
  proof (cases "b \<le> n")
    case True
    then have "n - b + b - 1 = m" using m by simp
    then show ?thesis using r by simp
  next
    case False
    then have "n - b + b - 1 = b - 1" "m < b" using m by simp_all
    moreover have "(b - 1) div b = 0" using assms(1) by simp
    ultimately show ?thesis using r by simp
  qed
qed

lemma length_chunksOf: "0 < b \<Longrightarrow> length (chunksOf b xs) = (length xs + b - 1) div b"
proof (induction b xs rule: chunksOf.induct)
  case (1 b xs)
  show ?case
  proof (cases "xs = []")
    case True
    then show ?thesis
      using "1.prems" by (subst chunksOf.simps) simp
  next
    case False
    then have n: "0 < length xs" by simp
    have ih: "length (chunksOf b (drop b xs)) = (length (drop b xs) + b - 1) div b"
      using "1.IH" False "1.prems" by blast
    have "length (chunksOf b xs) = Suc (length (chunksOf b (drop b xs)))"
      using False "1.prems" by (subst chunksOf.simps) simp
    also have "\<dots> = Suc ((length xs - b + b - 1) div b)"
      unfolding ih by simp
    also have "\<dots> = (length xs + b - 1) div b"
      by (rule ceil_step [OF "1.prems" n])
    finally show ?thesis .
  qed
qed

lemma in_range_aux: "0 < (B::nat) \<Longrightarrow> k < (n + B - 1) div B \<Longrightarrow> k * B < n"
proof (rule ccontr)
  assume pos: "0 < B" and k: "k < (n + B - 1) div B" and "\<not> k * B < n"
  then have "n + B - 1 < Suc k * B" by simp
  then have "(n + B - 1) div B < Suc k" by (rule less_mult_imp_div_less)
  then show False using k by simp
qed

lemma nth_chunksOf:
  "0 < b \<Longrightarrow> k < length (chunksOf b xs) \<Longrightarrow> chunksOf b xs ! k = take b (drop (k * b) xs)"
proof (induction b xs arbitrary: k rule: chunksOf.induct)
  case (1 b xs)
  have ne: "xs \<noteq> []"
  proof
    assume "xs = []"
    then have "chunksOf b xs = []" by (subst chunksOf.simps) simp
    then show False using "1.prems" by simp
  qed
  have unf: "chunksOf b xs = take b xs # chunksOf b (drop b xs)"
    using ne "1.prems" by (subst chunksOf.simps) simp
  show ?case
  proof (cases k)
    case 0
    then show ?thesis using unf by simp
  next
    case (Suc j)
    then have "j < length (chunksOf b (drop b xs))"
      using "1.prems" unf by simp
    then have "chunksOf b (drop b xs) ! j = take b (drop (j * b) (drop b xs))"
      using "1.IH" ne "1.prems" by blast
    then show ?thesis
      using Suc unf by (simp add: add.commute)
  qed
qed

text \<open>
  C2. For every array of N identifiers and every chunk size B \<ge> 1, chunkArray returns, and
  returns exactly ceil(N/B) chunks (none when N = 0); the k-th chunk is the contiguous run
  of the input that starts at index k*B and holds at most B elements, every chunk but the
  last has length exactly B, the last chunk is not empty, and the chunks concatenated in
  order are the input.
\<close>

theorem chunkArray_partition:
  assumes "1 \<le> B"
  shows "\<exists>chunks. chunkArray array B = Some chunks
      \<and> length chunks = (length array + B - 1) div B
      \<and> (array = [] \<longrightarrow> chunks = [])
      \<and> concat chunks = array
      \<and> (\<forall>k < length chunks. chunks ! k = slice array (k * B) (k * B + B))
      \<and> (\<forall>k < length chunks - 1. length (chunks ! k) = B)
      \<and> (\<forall>k < length chunks. 1 \<le> length (chunks ! k) \<and> length (chunks ! k) \<le> B)"
proof -
  let ?cs = "chunksOf B array"
  have pos: "0 < B" using assms by simp
  have ret: "chunkArray array B = Some ?cs"
    using chunkLoop_chunksOf [OF pos, of array 0 "[]"] by (simp add: chunkArray_def)
  have len: "length ?cs = (length array + B - 1) div B"
    by (rule length_chunksOf [OF pos])
  have empty: "array = [] \<longrightarrow> ?cs = []"
    by (subst chunksOf.simps) simp
  have nth: "?cs ! k = slice array (k * B) (k * B + B)" if "k < length ?cs" for k
    using nth_chunksOf [OF pos that] by (simp add: slice_def)
  have in_range: "k * B < length array" if "k < length ?cs" for k
    using that len in_range_aux [OF pos, of k "length array"] by simp
  have full: "length (?cs ! k) = B" if "k < length ?cs - 1" for k
  proof -
    have k: "k < length ?cs" and k1: "Suc k < length ?cs" using that by arith+
    have "Suc k * B < length array" by (rule in_range [OF k1])
    then have "k * B + B \<le> length array" by simp
    then show ?thesis using nth [OF k] by (simp add: slice_def)
  qed
  have bounds: "1 \<le> length (?cs ! k) \<and> length (?cs ! k) \<le> B" if "k < length ?cs" for k
    using nth [OF that] in_range [OF that] pos by (simp add: slice_def)
  show ?thesis
  proof (intro exI [of _ ?cs] conjI allI impI)
    show "chunkArray array B = Some ?cs" by (rule ret)
    show "length ?cs = (length array + B - 1) div B" by (rule len)
    show "?cs = []" if "array = []" using that empty by simp
    show "concat ?cs = array" by (rule concat_chunksOf [OF pos])
    show "?cs ! k = slice array (k * B) (k * B + B)" if "k < length ?cs" for k
      by (rule nth [OF that])
    show "length (?cs ! k) = B" if "k < length ?cs - 1" for k
      by (rule full [OF that])
    show "1 \<le> length (?cs ! k)" if "k < length ?cs" for k
      using bounds [OF that] by simp
    show "length (?cs ! k) \<le> B" if "k < length ?cs" for k
      using bounds [OF that] by simp
  qed
qed

theorem chunkArray_partition_witness:
  "\<exists>chunks. chunkArray [''a'', ''b'', ''c'', ''d'', ''e''] 2 = Some chunks
      \<and> length chunks = 3
      \<and> concat chunks = [''a'', ''b'', ''c'', ''d'', ''e'']
      \<and> chunks = [[''a'', ''b''], [''c'', ''d''], [''e'']]"
proof -
  have h: "(1::nat) \<le> 2" by simp
  obtain chunks where c: "chunkArray [''a'', ''b'', ''c'', ''d'', ''e''] 2 = Some chunks"
    and l: "length chunks = (length [''a'', ''b'', ''c'', ''d'', ''e''] + 2 - 1) div 2"
    and cc: "concat chunks = [''a'', ''b'', ''c'', ''d'', ''e'']"
    and n: "\<forall>k < length chunks. chunks ! k = slice [''a'', ''b'', ''c'', ''d'', ''e''] (k * 2) (k * 2 + 2)"
    using chunkArray_partition [OF h, of "[''a'', ''b'', ''c'', ''d'', ''e'']"] by blast
  have l3: "length chunks = 3" using l by simp
  then obtain x y z where xyz: "chunks = [x, y, z]"
    by (auto simp: numeral_3_eq_3 length_Suc_conv)
  have "chunks ! 0 = [''a'', ''b'']" "chunks ! 1 = [''c'', ''d'']" "chunks ! 2 = [''e'']"
    using n l3 by (simp_all add: slice_def)
  then have "chunks = [[''a'', ''b''], [''c'', ''d''], [''e'']]"
    using xyz by simp
  then show ?thesis using c l3 cc by blast
qed

section \<open>Collecting and replying\<close>


lemma chunkArray_returns: "1 \<le> b \<Longrightarrow> chunkArray xs b = Some (chunksOf b xs)"
  using chunkLoop_chunksOf [of b xs 0 "[]"] by (simp add: chunkArray_def)

lemma nonNull_append: "nonNull (xs @ ys) = nonNull xs @ nonNull ys"
  by (induction xs rule: nonNull.induct) simp_all

lemma nonNull_empty_iff: "nonNull xs = [] \<longleftrightarrow> (\<forall>x \<in> set xs. x = None)"
  by (induction xs rule: nonNull.induct) simp_all

lemma example_block:
  "formatMetricResult (exampleRuntime 0) (heap exampleWorld)
     \<lparr>definition_ref = 0, result_values = [\<lparr>labels = [(''unit'', ''percent'')], val = 5\<rparr>]\<rparr>
   = ''# HELP render_service_cpu_usage CPU usage for a Render service'' @ newline
     @ ''# TYPE render_service_cpu_usage gauge'' @ newline
     @ ''render_service_cpu_usage{unit='' @ dquote @ ''percent'' @ dquote @ ''} 5'' @ newline"
  by code_simp

lemma example_cpu_call:
  "collectMetrics (exampleRuntime now) exampleWorld exampleServices ''token'' 50
       \<lparr>fn_name = ''cpuUsage'', invoke = cpuUsage exampleApi\<rparr> 0 None
   = Some (\<lparr>heap = [\<lparr>name = ''render_service_cpu_usage'',
                      help_text = ''CPU usage for a Render service'', metric_type = ''gauge''\<rparr>,
                    \<lparr>name = ''render_service_cpu_usage_percent'',
                      help_text = ''CPU usage for a Render service'', metric_type = ''gauge''\<rparr>],
             queries = [(''cpuUsage'', ''token'', [''srv-1'', ''red-1''], showInt (now - 120000))]\<rparr>,
           Inr \<lparr>definition_ref = 1,
                result_values =
                  [\<lparr>labels = [(''unit'', ''percent''), (''service_name'', ''web''),
                              (''resource'', ''srv-1'')], val = 5\<rparr>,
                   \<lparr>labels = [(''unit'', ''percent''), (''service_name'', ''cache''),
                              (''resource'', ''red-1'')], val = 5\<rparr>]\<rparr>)"
  by (simp add: collectMetrics_def chunkArray_def chunkLoop.simps slice_def exampleWorld_def
      exampleServices_def exampleApi_def exampleSeries_def seriesPoint_def serviceMapOf_def
      orDefault_def addLabel_def alloc_def getProp_def exampleRuntime_def)

lemma formatMetricResult_empty:
  "result_values result = [] \<Longrightarrow> formatMetricResult rt h result = []"
  by (simp add: formatMetricResult_def)

text \<open>
  C7. A result whose values sequence is empty formats to the empty string (no HELP line,
  no TYPE line, no value line), and the handler leaves that family out of the body: with
  such a result among the collected ones, the reply is the 200 reply whose body is built
  from the other results alone.
\<close>

theorem empty_family_excluded:
  assumes "result_values result = []"
  shows "formatMetricResult rt h result = []
    \<and> replyFor rt h (before @ Some result # after) =
        \<lparr>status = 200, contentType = Some ''text/plain'',
         body = join newline
                  (filter (\<lambda>output. length output > 0)
                     (map (formatMetricResult rt h) (nonNull (before @ after))))\<rparr>"
  using assms
  by (simp add: replyFor_def nonNull_append formatMetricResult_empty)

theorem empty_family_excluded_witness:
  "result_values \<lparr>definition_ref = 0, result_values = ([] :: int MetricValue list)\<rparr> = []
   \<and> formatMetricResult (exampleRuntime 0) (heap exampleWorld)
         \<lparr>definition_ref = 0, result_values = []\<rparr> = []
   \<and> replyFor (exampleRuntime 0) (heap exampleWorld)
         [None, Some \<lparr>definition_ref = 0, result_values = []\<rparr>,
          Some \<lparr>definition_ref = 0, result_values = [\<lparr>labels = [(''unit'', ''percent'')], val = 5\<rparr>]\<rparr>]
       = \<lparr>status = 200, contentType = Some ''text/plain'',
          body = ''# HELP render_service_cpu_usage CPU usage for a Render service'' @ newline
               @ ''# TYPE render_service_cpu_usage gauge'' @ newline
               @ ''render_service_cpu_usage{unit='' @ dquote @ ''percent'' @ dquote @ ''} 5'' @ newline\<rparr>"
proof -
  have h: "result_values \<lparr>definition_ref = 0, result_values = ([] :: int MetricValue list)\<rparr> = []"
    by simp
  show ?thesis
    using empty_family_excluded [OF h, of "exampleRuntime 0" "heap exampleWorld" "[None]"
        "[Some \<lparr>definition_ref = 0, result_values = [\<lparr>labels = [(''unit'', ''percent'')], val = 5\<rparr>]\<rparr>]"]
    by (simp add: example_block newline_def)
qed


lemma collectMetrics_unfold:
  assumes b: "1 \<le> bs"
  shows "collectMetrics rt w svcs tok bs metricFn d startTime =
     (let batches = chunksOf bs (map svc_id svcs);
          start = orDefault startTime (toISOString rt (dateNow rt - 2 * 60 * 1000));
          w1 = w\<lparr>queries := queries w @ map (\<lambda>batch. (fn_name metricFn, tok, batch, start)) batches\<rparr>
      in case promiseAll (map (\<lambda>batch. invoke metricFn tok batch start) batches) of
        Inl e \<Rightarrow> Some (w1, Inl (UpstreamCallFailure e))
      | Inr allMetricsResults \<Rightarrow>
          let vs = List.map_filter (seriesPoint (serviceMapOf svcs)) (nonNull (concat allMetricsResults))
          in if vs = []
             then Some (w1, Inl (EmptyMetricsResult (emptyMessage (fn_name metricFn) svcs)))
             else Some (w1\<lparr>heap := heap w @ [(heap w ! d)\<lparr>name := name (heap w ! d) @ ''_'' @ getProp (labels (vs ! 0)) ''unit''\<rparr>]\<rparr>,
                        Inr \<lparr>definition_ref = length (heap w), result_values = vs\<rparr>))"
  unfolding collectMetrics_def chunkArray_returns [OF b]
  by (simp add: Let_def alloc_def split: sum.split)

lemma collectMetrics_returns:
  "1 \<le> bs \<Longrightarrow> \<exists>w' r. collectMetrics rt w svcs tok bs metricFn d startTime = Some (w', r)"
  by (simp add: collectMetrics_unfold Let_def split: sum.split)

lemma collectMetrics_heap:
  assumes "collectMetrics rt w svcs tok bs metricFn d startTime = Some (w', r)"
  shows "take (length (heap w)) (heap w') = heap w"
    and "\<And>res. r = Inr res \<Longrightarrow> definition_ref res = length (heap w) \<and> length (heap w') = Suc (length (heap w))"
    and "\<And>e. r = Inl e \<Longrightarrow> heap w' = heap w"
  using assms unfolding collectMetrics_def
  by (auto simp: Let_def alloc_def split: option.splits sum.splits if_splits)


lemma map_of_addLabel:
  "map_of (addLabel acc l) =
     (case field l of
        None \<Rightarrow> map_of acc
      | Some f \<Rightarrow> (case label_value l of
                     None \<Rightarrow> map_of acc
                   | Some v \<Rightarrow> if f = [] \<or> f = ''__proto__'' then map_of acc
                              else (map_of acc)(f \<mapsto> v)))"
  by (simp add: addLabel_def update_conv' split: option.split)

lemma addLabel_keeps_key: "k \<in> dom (map_of acc) \<Longrightarrow> k \<in> dom (map_of (addLabel acc l))"
  by (auto simp: map_of_addLabel split: option.split)

lemma foldl_addLabel_keeps_key:
  "k \<in> dom (map_of acc) \<Longrightarrow> k \<in> dom (map_of (foldl addLabel acc ls))"
proof (induction ls arbitrary: acc)
  case Nil
  then show ?case by simp
next
  case (Cons l ls)
  show ?case
    using Cons.IH [OF addLabel_keeps_key [OF Cons.prems]] by simp
qed

lemma set_map_filter_mem:
  "y \<in> set (List.map_filter f xs) \<Longrightarrow> \<exists>x \<in> set xs. f x = Some y"
  by (induction xs) (auto split: option.splits)

lemma seriesPoint_has_unit:
  "seriesPoint sm m = Some p \<Longrightarrow> \<exists>u. map_of (labels p) ''unit'' = Some u"
proof -
  assume a: "seriesPoint sm m = Some p"
  then obtain ls acc where "labels p = foldl addLabel acc ls" "''unit'' \<in> dom (map_of acc)"
    by (auto simp: seriesPoint_def Let_def split: option.splits if_splits)
  then show ?thesis
    using foldl_addLabel_keeps_key [of "''unit''" acc ls] by auto
qed

lemma collectMetrics_success:
  assumes "collectMetrics rt w svcs tok bs metricFn d startTime = Some (w', Inr res)"
  shows "result_values res \<noteq> []"
    and "\<exists>sm m. seriesPoint sm m = Some (result_values res ! 0)"
    and "heap w' ! definition_ref res =
           (heap w ! d)\<lparr>name := name (heap w ! d) @ ''_'' @ getProp (labels (result_values res ! 0)) ''unit''\<rparr>"
proof -
  from assms obtain results where
    vs: "result_values res = List.map_filter (seriesPoint (serviceMapOf svcs)) (nonNull (concat results))"
    and ne: "result_values res \<noteq> []"
    and h: "heap w' = heap w @ [(heap w ! d)\<lparr>name := name (heap w ! d) @ ''_'' @ getProp (labels (result_values res ! 0)) ''unit''\<rparr>]"
    and r: "definition_ref res = length (heap w)"
    unfolding collectMetrics_def
    by (auto simp: Let_def alloc_def split: option.splits sum.splits if_splits)
  show "result_values res \<noteq> []" by (rule ne)
  have "result_values res ! 0 \<in> set (result_values res)" using ne by simp
  then show "\<exists>sm m. seriesPoint sm m = Some (result_values res ! 0)"
    unfolding vs by (blast dest: set_map_filter_mem)
  show "heap w' ! definition_ref res =
           (heap w ! d)\<lparr>name := name (heap w ! d) @ ''_'' @ getProp (labels (result_values res ! 0)) ''unit''\<rparr>"
    using h r by simp
qed

text \<open>
  C4. When collectMetrics succeeds, at least one point has survived the merge, and the
  returned definition has the name of the base definition, an underscore, and the unit
  label of the first merged point; its help text and type are those of the base.
\<close>

theorem collectMetrics_unit_suffix:
  assumes "collectMetrics rt w svcs tok bs metricFn d startTime = Some (w', Inr res)"
  shows "result_values res \<noteq> []
     \<and> (\<exists>u. map_of (labels (result_values res ! 0)) ''unit'' = Some u
            \<and> name (heap w' ! definition_ref res) = name (heap w ! d) @ ''_'' @ u)
     \<and> help_text (heap w' ! definition_ref res) = help_text (heap w ! d)
     \<and> metric_type (heap w' ! definition_ref res) = metric_type (heap w ! d)"
proof -
  note s = collectMetrics_success [OF assms]
  obtain u where u: "map_of (labels (result_values res ! 0)) ''unit'' = Some u"
    using s(2) seriesPoint_has_unit by blast
  then have "getProp (labels (result_values res ! 0)) ''unit'' = u"
    by (simp add: getProp_def)
  then show ?thesis using s(1) s(3) u by simp
qed

theorem collectMetrics_unit_suffix_witness:
  "\<exists>w' res. collectMetrics (exampleRuntime 0) exampleWorld exampleServices ''token'' 50
                 \<lparr>fn_name = ''cpuUsage'', invoke = cpuUsage exampleApi\<rparr> 0 None = Some (w', Inr res)
      \<and> name (heap exampleWorld ! 0) = ''render_service_cpu_usage''
      \<and> map_of (labels (result_values res ! 0)) ''unit'' = Some ''percent''
      \<and> name (heap w' ! definition_ref res) = ''render_service_cpu_usage_percent''"
proof -
  note c = example_cpu_call [of 0]
  note t = collectMetrics_unit_suffix [OF c]
  have b: "name (heap exampleWorld ! 0) = ''render_service_cpu_usage''"
    by (simp add: exampleWorld_def)
  from t b show ?thesis
    unfolding c by simp
qed


lemma seriesPoint_skipped:
  "(case resp_labels m of None \<Rightarrow> True | Some ls \<Rightarrow> length ls = 0) \<or> length (resp_values m) = 0
     \<Longrightarrow> seriesPoint sm m = None"
  by (auto simp: seriesPoint_def split: option.splits)

lemma map_filter_all_None: "(\<forall>x \<in> set xs. f x = None) \<Longrightarrow> List.map_filter f xs = []"
  by (induction xs) simp_all

text \<open>
  C5. When every batch query fulfils and every returned series is skipped (no labels, or
  no data points), collectMetrics returns no result: it fails with the error it makes
  itself, whose message begins "Empty metrics result" and goes on with the name of the
  metric function and the resources, and the store is as before. When a batch query is
  rejected, collectMetrics fails with the very value the query was rejected with, never
  with the empty-result error: the two failures are told apart. And a result that
  collectMetrics does return never has an empty values sequence.
\<close>

theorem collectMetrics_empty_result:
  assumes "chunkArray (map svc_id svcs) bs = Some batches"
  shows "(\<forall>results.
            promiseAll (map (\<lambda>batch. invoke metricFn tok batch
                (orDefault startTime (toISOString rt (dateNow rt - 2 * 60 * 1000)))) batches) = Inr results
            \<and> (\<forall>m \<in> set (nonNull (concat results)).
                  (case resp_labels m of None \<Rightarrow> True | Some ls \<Rightarrow> length ls = 0)
                  \<or> length (resp_values m) = 0)
            \<longrightarrow> (\<exists>w'. collectMetrics rt w svcs tok bs metricFn d startTime
                        = Some (w', Inl (EmptyMetricsResult
                             (''Empty metrics result '' @ fn_name metricFn @ '' ''
                              @ join '','' (map (\<lambda>svc. laquo @ svc_id svc @ '' '' @ svc_name svc @ raquo) svcs))))
                      \<and> heap w' = heap w))
     \<and> (\<forall>e. promiseAll (map (\<lambda>batch. invoke metricFn tok batch
                (orDefault startTime (toISOString rt (dateNow rt - 2 * 60 * 1000)))) batches) = Inl e
            \<longrightarrow> (\<exists>w'. collectMetrics rt w svcs tok bs metricFn d startTime
                        = Some (w', Inl (UpstreamCallFailure e))
                      \<and> heap w' = heap w))
     \<and> (\<forall>w' res. collectMetrics rt w svcs tok bs metricFn d startTime = Some (w', Inr res)
            \<longrightarrow> result_values res \<noteq> [])
     \<and> (\<forall>e msg. EmptyMetricsResult msg \<noteq> UpstreamCallFailure e)"
proof (intro conjI allI impI)
  fix results
  assume a: "promiseAll (map (\<lambda>batch. invoke metricFn tok batch
                (orDefault startTime (toISOString rt (dateNow rt - 2 * 60 * 1000)))) batches) = Inr results
            \<and> (\<forall>m \<in> set (nonNull (concat results)).
                  (case resp_labels m of None \<Rightarrow> True | Some ls \<Rightarrow> length ls = 0)
                  \<or> length (resp_values m) = 0)"
  then have "List.map_filter (seriesPoint (serviceMapOf svcs)) (nonNull (concat results)) = []"
    by (intro map_filter_all_None ballI seriesPoint_skipped) blast
  then show "\<exists>w'. collectMetrics rt w svcs tok bs metricFn d startTime
                        = Some (w', Inl (EmptyMetricsResult
                             (''Empty metrics result '' @ fn_name metricFn @ '' ''
                              @ join '','' (map (\<lambda>svc. laquo @ svc_id svc @ '' '' @ svc_name svc @ raquo) svcs))))
                      \<and> heap w' = heap w"
    using assms a by (simp add: collectMetrics_def Let_def emptyMessage_def)
next
  fix e
  assume "promiseAll (map (\<lambda>batch. invoke metricFn tok batch
                (orDefault startTime (toISOString rt (dateNow rt - 2 * 60 * 1000)))) batches) = Inl e"
  then show "\<exists>w'. collectMetrics rt w svcs tok bs metricFn d startTime
                        = Some (w', Inl (UpstreamCallFailure e))
                      \<and> heap w' = heap w"
    using assms by (simp add: collectMetrics_def Let_def)
next
  fix w' res
  assume "collectMetrics rt w svcs tok bs metricFn d startTime = Some (w', Inr res)"
  then show "result_values res \<noteq> []"
    by (rule collectMetrics_success(1))
qed simp

theorem collectMetrics_empty_result_witness:
  "chunkArray (map svc_id exampleServices) 50 = Some [[''srv-1'', ''red-1'']]
   \<and> (\<exists>w'. collectMetrics (exampleRuntime 0) exampleWorld exampleServices ''token'' 50
               \<lparr>fn_name = ''bandwidth'', invoke = bandwidth exampleApi\<rparr> 0 None
             = Some (w', Inl (EmptyMetricsResult
                  (''Empty metrics result bandwidth '' @ laquo @ ''srv-1 web'' @ raquo @ '',''
                   @ laquo @ ''red-1 cache'' @ raquo)))
           \<and> heap w' = heap exampleWorld)
   \<and> (\<exists>w'. collectMetrics (exampleRuntime 0) exampleWorld exampleServices ''token'' 50
               \<lparr>fn_name = ''memoryUsage'', invoke = memoryUsage exampleApi\<rparr> 0 None
             = Some (w', Inl (UpstreamCallFailure ''timeout''))
           \<and> heap w' = heap exampleWorld)"
proof -
  let ?skipped = "Some \<lparr>resp_unit = ''bytes'', resp_labels = Some [], resp_values = ([] :: int DataPoint list)\<rparr>"
  let ?start = "orDefault None (toISOString (exampleRuntime 0) (dateNow (exampleRuntime 0) - 2 * 60 * 1000))"
  have h1: "chunkArray (map svc_id exampleServices) 50 = Some [[''srv-1'', ''red-1'']]"
    by (simp add: chunkArray_def chunkLoop.simps slice_def exampleServices_def)
  have h2: "promiseAll (map (\<lambda>batch. invoke \<lparr>fn_name = ''bandwidth'', invoke = bandwidth exampleApi\<rparr>
                 ''token'' batch ?start) [[''srv-1'', ''red-1'']]) = Inr [[?skipped, ?skipped]]
      \<and> (\<forall>m \<in> set (nonNull (concat [[?skipped, ?skipped]])).
              (case resp_labels m of None \<Rightarrow> True | Some ls \<Rightarrow> length ls = 0)
              \<or> length (resp_values m) = 0)"
    by (simp add: exampleApi_def)
  have h3: "promiseAll (map (\<lambda>batch. invoke \<lparr>fn_name = ''memoryUsage'', invoke = memoryUsage exampleApi\<rparr>
                 ''token'' batch ?start) [[''srv-1'', ''red-1'']]) = Inl ''timeout''"
    by (simp add: exampleApi_def)
  note empty = collectMetrics_empty_result [OF h1, where rt = "exampleRuntime 0"
      and metricFn = "\<lparr>fn_name = ''bandwidth'', invoke = bandwidth exampleApi\<rparr>"
      and tok = "''token''" and startTime = None and w = exampleWorld and d = 0,
      THEN conjunct1, rule_format, OF h2]
  note rejected = collectMetrics_empty_result [OF h1, where rt = "exampleRuntime 0"
      and metricFn = "\<lparr>fn_name = ''memoryUsage'', invoke = memoryUsage exampleApi\<rparr>"
      and tok = "''token''" and startTime = None and w = exampleWorld and d = 0,
      THEN conjunct2, THEN conjunct1, rule_format, OF h3]
  have msg: "''Empty metrics result '' @ fn_name \<lparr>fn_name = ''bandwidth'', invoke = bandwidth exampleApi\<rparr> @ '' ''
        @ join '','' (map (\<lambda>svc. laquo @ svc_id svc @ '' '' @ svc_name svc @ raquo) exampleServices)
      = ''Empty metrics result bandwidth '' @ laquo @ ''srv-1 web'' @ raquo @ '','' @ laquo @ ''red-1 cache'' @ raquo"
    by (simp add: exampleServices_def)
  show ?thesis
    using h1 empty [unfolded msg] rejected by (intro conjI)
qed

text \<open>
  C10. collectMetrics does not write to the definition it is given. With a batch size of at
  least 1 the call returns, and whether it succeeds or fails, the object at the caller's
  reference has the name, help text and type it had before, as has every object that was in
  the store; a returned definition is a new object, not the caller's.
\<close>

theorem collectMetrics_keeps_definition:
  assumes "1 \<le> bs" and "d < length (heap w)"
  shows "\<exists>w' r. collectMetrics rt w svcs tok bs metricFn d startTime = Some (w', r)
      \<and> heap w' ! d = heap w ! d
      \<and> name (heap w' ! d) = name (heap w ! d)
      \<and> help_text (heap w' ! d) = help_text (heap w ! d)
      \<and> metric_type (heap w' ! d) = metric_type (heap w ! d)
      \<and> take (length (heap w)) (heap w') = heap w
      \<and> (\<forall>res. r = Inr res \<longrightarrow> definition_ref res \<noteq> d)"
proof -
  obtain w' r where c: "collectMetrics rt w svcs tok bs metricFn d startTime = Some (w', r)"
    using collectMetrics_returns [OF assms(1)] by blast
  note h = collectMetrics_heap [OF c]
  have "heap w' ! d = take (length (heap w)) (heap w') ! d"
    using assms(2) by simp
  then have same: "heap w' ! d = heap w ! d"
    using h(1) by simp
  have "definition_ref res \<noteq> d" if "r = Inr res" for res
    using h(2) [OF that] assms(2) by simp
  then show ?thesis using c same h(1) by simp
qed

theorem collectMetrics_keeps_definition_witness:
  "(1::nat) \<le> 50 \<and> 0 < length (heap exampleWorld)
   \<and> (\<exists>w' r. collectMetrics (exampleRuntime 0) exampleWorld exampleServices ''token'' 50
                 \<lparr>fn_name = ''cpuUsage'', invoke = cpuUsage exampleApi\<rparr> 0 None = Some (w', r)
        \<and> name (heap w' ! 0) = ''render_service_cpu_usage''
        \<and> heap w' ! 0 = heap exampleWorld ! 0)"
proof -
  have h1: "(1::nat) \<le> 50" by simp
  have h2: "0 < length (heap exampleWorld)" by (simp add: exampleWorld_def)
  have b: "name (heap exampleWorld ! 0) = ''render_service_cpu_usage''"
    by (simp add: exampleWorld_def)
  show ?thesis
    using collectMetrics_keeps_definition [OF h1 h2, of "exampleRuntime 0" exampleServices "''token''"
        "\<lparr>fn_name = ''cpuUsage'', invoke = cpuUsage exampleApi\<rparr>" None] h1 h2 b
    by auto
qed


text \<open>
  C8. When no identifier starts with srv-, collectBandwidth returns a result with no
  values, and it issues no upstream query and raises no error; when no identifier starts
  with red- or dpg-, so does collectActiveConnections.
\<close>

theorem filtered_to_empty_is_empty_result:
  "((\<forall>svc \<in> set svcs. \<not> startsWith (svc_id svc) ''srv-'') \<longrightarrow>
      (\<exists>w' res. collectBandwidth rt api w svcs tok bs = Some (w', Inr res)
          \<and> result_values res = [] \<and> queries w' = queries w))
   \<and> ((\<forall>svc \<in> set svcs. \<not> startsWith (svc_id svc) ''red-'' \<and> \<not> startsWith (svc_id svc) ''dpg-'') \<longrightarrow>
      (\<exists>w' res. collectActiveConnections rt api w svcs tok bs = Some (w', Inr res)
          \<and> result_values res = [] \<and> queries w' = queries w))"
proof (intro conjI impI)
  assume "\<forall>svc \<in> set svcs. \<not> startsWith (svc_id svc) ''srv-''"
  then have "filter (\<lambda>svc. startsWith (svc_id svc) ''srv-'') svcs = []"
    by (simp add: filter_empty_conv)
  then show "\<exists>w' res. collectBandwidth rt api w svcs tok bs = Some (w', Inr res)
          \<and> result_values res = [] \<and> queries w' = queries w"
    by (simp add: collectBandwidth_def alloc_def)
next
  assume "\<forall>svc \<in> set svcs. \<not> startsWith (svc_id svc) ''red-'' \<and> \<not> startsWith (svc_id svc) ''dpg-''"
  then have "filter (\<lambda>svc. startsWith (svc_id svc) ''red-'' \<or> startsWith (svc_id svc) ''dpg-'') svcs = []"
    by (simp add: filter_empty_conv)
  then show "\<exists>w' res. collectActiveConnections rt api w svcs tok bs = Some (w', Inr res)
          \<and> result_values res = [] \<and> queries w' = queries w"
    by (simp add: collectActiveConnections_def alloc_def)
qed

theorem filtered_to_empty_is_empty_result_witness:
  "\<not> startsWith ''red-1'' ''srv-''
   \<and> (\<exists>w' res. collectBandwidth (exampleRuntime 0) exampleApi exampleWorld
                   [\<lparr>svc_id = ''red-1'', svc_name = ''cache''\<rparr>] ''token'' 50 = Some (w', Inr res)
          \<and> result_values res = [] \<and> queries w' = queries exampleWorld)
   \<and> \<not> startsWith ''srv-1'' ''red-'' \<and> \<not> startsWith ''srv-1'' ''dpg-''
   \<and> (\<exists>w' res. collectActiveConnections (exampleRuntime 0) exampleApi exampleWorld
                   [\<lparr>svc_id = ''srv-1'', svc_name = ''web''\<rparr>] ''token'' 50 = Some (w', Inr res)
          \<and> result_values res = [] \<and> queries w' = queries exampleWorld)"
proof -
  have h1: "\<forall>svc \<in> set [\<lparr>svc_id = ''red-1'', svc_name = ''cache''\<rparr>]. \<not> startsWith (svc_id svc) ''srv-''"
    by (simp add: startsWith_def)
  have h2: "\<forall>svc \<in> set [\<lparr>svc_id = ''srv-1'', svc_name = ''web''\<rparr>].
          \<not> startsWith (svc_id svc) ''red-'' \<and> \<not> startsWith (svc_id svc) ''dpg-''"
    by (simp add: startsWith_def)
  have a: "\<exists>w' res. collectBandwidth (exampleRuntime 0) exampleApi exampleWorld
                   [\<lparr>svc_id = ''red-1'', svc_name = ''cache''\<rparr>] ''token'' 50 = Some (w', Inr res)
          \<and> result_values res = [] \<and> queries w' = queries exampleWorld"
    using filtered_to_empty_is_empty_result [of "[\<lparr>svc_id = ''red-1'', svc_name = ''cache''\<rparr>]"
        "exampleRuntime 0" exampleApi exampleWorld "''token''" 50] h1 by blast
  have b: "\<exists>w' res. collectActiveConnections (exampleRuntime 0) exampleApi exampleWorld
                   [\<lparr>svc_id = ''srv-1'', svc_name = ''web''\<rparr>] ''token'' 50 = Some (w', Inr res)
          \<and> result_values res = [] \<and> queries w' = queries exampleWorld"
    using filtered_to_empty_is_empty_result [of "[\<lparr>svc_id = ''srv-1'', svc_name = ''web''\<rparr>]"
        "exampleRuntime 0" exampleApi exampleWorld "''token''" 50] h2 by blast
  show ?thesis using h1 h2 a b by simp
qed


lemma collectBandwidth_returns:
  "1 \<le> bs \<Longrightarrow> \<exists>w' r. collectBandwidth rt api w svcs tok bs = Some (w', r)"
  using collectMetrics_returns [of bs]
  by (simp add: collectBandwidth_def alloc_def Let_def) blast

lemma collectActiveConnections_returns:
  "1 \<le> bs \<Longrightarrow> \<exists>w' r. collectActiveConnections rt api w svcs tok bs = Some (w', r)"
  using collectMetrics_returns [of bs]
  by (simp add: collectActiveConnections_def alloc_def Let_def) blast

lemma launchCollectors_returns:
  assumes "1 \<le> batchSize config"
  shows "\<exists>w' r1 r2 r3 r4 r5 r6. launchCollectors rt api config w svcs
            = Some (w', [r1, Some r2, r3, r4, r5, r6])"
proof -
  let ?tok = "renderApiToken config" and ?bs = "batchSize config"
  obtain w1 r1 where c1: "collectInstanceCountMetrics rt api w svcs ?tok ?bs = Some (w1, r1)"
    using collectMetrics_returns [OF assms]
    by (simp add: collectInstanceCountMetrics_def alloc_def) blast
  obtain w2 r2 where c2: "collectServiceCountMetric rt w1 svcs = (w2, r2)"
    by (cases "collectServiceCountMetric rt w1 svcs")
  obtain w3 r3 where c3: "collectCPUMetrics rt api w2 svcs ?tok ?bs = Some (w3, r3)"
    using collectMetrics_returns [OF assms]
    by (simp add: collectCPUMetrics_def alloc_def) blast
  obtain w4 r4 where c4: "collectMemoryMetrics rt api w3 svcs ?tok ?bs = Some (w4, r4)"
    using collectMetrics_returns [OF assms]
    by (simp add: collectMemoryMetrics_def alloc_def) blast
  obtain w5 r5 where c5: "collectBandwidth rt api w4 svcs ?tok ?bs = Some (w5, r5)"
    using collectBandwidth_returns [OF assms] by blast
  obtain w6 r6 where c6: "collectActiveConnections rt api w5 svcs ?tok ?bs = Some (w6, r6)"
    using collectActiveConnections_returns [OF assms] by blast
  show ?thesis
    by (simp add: launchCollectors_def c1 c2 c3 c4 c5 c6)
qed

lemma replyFor_cases:
  "replyFor rt h results =
     (if \<forall>r \<in> set results. r = None
      then \<lparr>status = 500, contentType = None,
            body = ''Error fetching metrics: all collectors failed''\<rparr>
      else \<lparr>status = 200, contentType = Some ''text/plain'',
            body = join newline
                     (filter (\<lambda>block. block \<noteq> [])
                        (map (formatMetricResult rt h) (nonNull results)))\<rparr>)"
  by (simp add: replyFor_def Let_def nonNull_empty_iff)

lemma service_count_never_fails:
  assumes "launchCollectors rt api config w svcs = Some (w', rs)"
  shows "length rs = 6 \<and> (\<exists>r. rs ! 1 = Some r)"
  using assms
  by (auto simp: launchCollectors_def Option.bind_eq_Some_conv case_prod_beta)



lemma metrics_reply_of_collectors:
  assumes "getServices api (renderApiToken config) (serviceNameFilter config) = Inr svcs"
    and "1 \<le> batchSize config"
  shows "\<exists>w1 r1 w2 r2 w3 r3 w4 r4 w5 r5 w6 r6.
      collectInstanceCountMetrics rt api w svcs (renderApiToken config) (batchSize config) = Some (w1, r1)
    \<and> collectServiceCountMetric rt w1 svcs = (w2, r2)
    \<and> collectCPUMetrics rt api w2 svcs (renderApiToken config) (batchSize config) = Some (w3, r3)
    \<and> collectMemoryMetrics rt api w3 svcs (renderApiToken config) (batchSize config) = Some (w4, r4)
    \<and> collectBandwidth rt api w4 svcs (renderApiToken config) (batchSize config) = Some (w5, r5)
    \<and> collectActiveConnections rt api w5 svcs (renderApiToken config) (batchSize config) = Some (w6, r6)
    \<and> metrics rt api config w =
        Some (w6,
          \<lparr>status = 200, contentType = Some ''text/plain'',
           body = join newline
                    (filter (\<lambda>block. block \<noteq> [])
                       (map (formatMetricResult rt (heap w6))
                          ((case r1 of Inl e \<Rightarrow> [] | Inr x \<Rightarrow> [x]) @ [r2]
                           @ (case r3 of Inl e \<Rightarrow> [] | Inr x \<Rightarrow> [x])
                           @ (case r4 of Inl e \<Rightarrow> [] | Inr x \<Rightarrow> [x])
                           @ (case r5 of Inl e \<Rightarrow> [] | Inr x \<Rightarrow> [x])
                           @ (case r6 of Inl e \<Rightarrow> [] | Inr x \<Rightarrow> [x]))))\<rparr>)"
proof -
  let ?tok = "renderApiToken config" and ?bs = "batchSize config"
  obtain w1 r1 where c1: "collectInstanceCountMetrics rt api w svcs ?tok ?bs = Some (w1, r1)"
    using collectMetrics_returns [OF assms(2)]
    by (simp add: collectInstanceCountMetrics_def alloc_def) blast
  obtain w2 r2 where c2: "collectServiceCountMetric rt w1 svcs = (w2, r2)"
    by (cases "collectServiceCountMetric rt w1 svcs")
  obtain w3 r3 where c3: "collectCPUMetrics rt api w2 svcs ?tok ?bs = Some (w3, r3)"
    using collectMetrics_returns [OF assms(2)]
    by (simp add: collectCPUMetrics_def alloc_def) blast
  obtain w4 r4 where c4: "collectMemoryMetrics rt api w3 svcs ?tok ?bs = Some (w4, r4)"
    using collectMetrics_returns [OF assms(2)]
    by (simp add: collectMemoryMetrics_def alloc_def) blast
  obtain w5 r5 where c5: "collectBandwidth rt api w4 svcs ?tok ?bs = Some (w5, r5)"
    using collectBandwidth_returns [OF assms(2)] by blast
  obtain w6 r6 where c6: "collectActiveConnections rt api w5 svcs ?tok ?bs = Some (w6, r6)"
    using collectActiveConnections_returns [OF assms(2)] by blast
  have n: "nonNull [catchNull r1, Some r2, catchNull r3, catchNull r4, catchNull r5, catchNull r6]
      = (case r1 of Inl e \<Rightarrow> [] | Inr x \<Rightarrow> [x]) @ [r2]
        @ (case r3 of Inl e \<Rightarrow> [] | Inr x \<Rightarrow> [x])
        @ (case r4 of Inl e \<Rightarrow> [] | Inr x \<Rightarrow> [x])
        @ (case r5 of Inl e \<Rightarrow> [] | Inr x \<Rightarrow> [x])
        @ (case r6 of Inl e \<Rightarrow> [] | Inr x \<Rightarrow> [x])"
    by (simp add: catchNull_def split: sum.split)
  have l: "launchCollectors rt api config w svcs
      = Some (w6, [catchNull r1, Some r2, catchNull r3, catchNull r4, catchNull r5, catchNull r6])"
    by (simp add: launchCollectors_def c1 c2 c3 c4 c5 c6)
  have r: "replyFor rt (heap w6) [catchNull r1, Some r2, catchNull r3, catchNull r4, catchNull r5, catchNull r6]
      = \<lparr>status = 200, contentType = Some ''text/plain'',
         body = join newline
                  (filter (\<lambda>block. block \<noteq> [])
                     (map (formatMetricResult rt (heap w6))
                        (nonNull [catchNull r1, Some r2, catchNull r3, catchNull r4, catchNull r5, catchNull r6])))\<rparr>"
    by (simp add: replyFor_cases)
  have m: "metrics rt api config w =
        Some (w6,
          \<lparr>status = 200, contentType = Some ''text/plain'',
           body = join newline
                    (filter (\<lambda>block. block \<noteq> [])
                       (map (formatMetricResult rt (heap w6))
                          ((case r1 of Inl e \<Rightarrow> [] | Inr x \<Rightarrow> [x]) @ [r2]
                           @ (case r3 of Inl e \<Rightarrow> [] | Inr x \<Rightarrow> [x])
                           @ (case r4 of Inl e \<Rightarrow> [] | Inr x \<Rightarrow> [x])
                           @ (case r5 of Inl e \<Rightarrow> [] | Inr x \<Rightarrow> [x])
                           @ (case r6 of Inl e \<Rightarrow> [] | Inr x \<Rightarrow> [x]))))\<rparr>)"
    by (simp add: metrics_def assms(1) l r n del: nonNull.simps)
  show ?thesis
    using c1 c2 c3 c4 c5 c6 m by blast
qed



section \<open>The order of the labels\<close>

lemma set_insert_cmp: "set (insert_cmp c x ys) = insert x (set ys)"
  by (induction ys) auto

lemma length_insert_cmp: "length (insert_cmp c x ys) = Suc (length ys)"
  by (induction ys) auto

lemma sort_cmp_Cons: "sort_cmp c (x # xs) = insert_cmp c x (sort_cmp c xs)"
  by (simp add: sort_cmp_def)

lemma set_sort_cmp: "set (sort_cmp c xs) = set xs"
  by (induction xs) (simp_all add: sort_cmp_Cons set_insert_cmp, simp add: sort_cmp_def)

lemma length_sort_cmp: "length (sort_cmp c xs) = length xs"
  by (induction xs) (simp_all add: sort_cmp_Cons length_insert_cmp, simp add: sort_cmp_def)

lemma ordersStrictly_less:
  assumes "ordersStrictly c zs" "a \<in> set zs" "b \<in> set zs" "a \<noteq> b" "\<not> c a b < 0"
  shows "c b a < 0"
proof -
  have "c a b \<noteq> 0" using assms by (simp add: ordersStrictly_def)
  then have "0 < c a b" using assms(5) by simp
  then show ?thesis using assms(1-3) by (simp add: ordersStrictly_def)
qed

lemma ordersStrictly_trans:
  "ordersStrictly c zs \<Longrightarrow> a \<in> set zs \<Longrightarrow> b \<in> set zs \<Longrightarrow> d \<in> set zs \<Longrightarrow> c a b < 0 \<Longrightarrow> c b d < 0 \<Longrightarrow> c a d < 0"
  unfolding ordersStrictly_def by blast

lemma ordersStrictly_irrefl: "ordersStrictly c zs \<Longrightarrow> a \<in> set zs \<Longrightarrow> \<not> c a a < 0"
  unfolding ordersStrictly_def by fastforce

lemma sorted_insert_cmp:
  assumes "ordersStrictly c zs" "x \<in> set zs" "set ys \<subseteq> set zs" "x \<notin> set ys"
    and "sorted_wrt (\<lambda>a b. c a b < 0) ys"
  shows "sorted_wrt (\<lambda>a b. c a b < 0) (insert_cmp c x ys)"
  using assms(3-5)
proof (induction ys)
  case Nil
  then show ?case by simp
next
  case (Cons y ys)
  have yS: "y \<in> set zs" and ysS: "set ys \<subseteq> set zs" and xy: "x \<noteq> y" and xys: "x \<notin> set ys"
    using Cons.prems by auto
  have sy: "\<forall>z \<in> set ys. c y z < 0" and sys: "sorted_wrt (\<lambda>a b. c a b < 0) ys"
    using Cons.prems by auto
  show ?case
  proof (cases "c x y \<le> 0")
    case True
    have "c x y \<noteq> 0" using assms(1,2) yS xy by (simp add: ordersStrictly_def)
    then have lt: "c x y < 0" using True by simp
    have "c x z < 0" if "z \<in> set ys" for z
      using ordersStrictly_trans [OF assms(1,2) yS _ lt] sy ysS that by blast
    then show ?thesis using True lt Cons.prems by auto
  next
    case False
    then have "\<not> c x y < 0" by simp
    then have yx: "c y x < 0" by (rule ordersStrictly_less [OF assms(1,2) yS xy])
    have "sorted_wrt (\<lambda>a b. c a b < 0) (insert_cmp c x ys)"
      using Cons.IH ysS xys sys by simp
    then show ?thesis using False yx sy by (simp add: set_insert_cmp)
  qed
qed

lemma sorted_sort_cmp:
  assumes "ordersStrictly c zs"
  shows "set xs \<subseteq> set zs \<Longrightarrow> distinct xs \<Longrightarrow> sorted_wrt (\<lambda>a b. c a b < 0) (sort_cmp c xs)"
proof (induction xs)
  case Nil
  then show ?case by (simp add: sort_cmp_def)
next
  case (Cons x xs)
  then show ?case
    using sorted_insert_cmp [OF assms, of x "sort_cmp c xs"]
    by (simp add: sort_cmp_Cons set_sort_cmp)
qed

lemma sorted_cmp_unique:
  assumes "ordersStrictly c zs"
  shows "set xs \<subseteq> set zs \<Longrightarrow> sorted_wrt (\<lambda>a b. c a b < 0) xs \<Longrightarrow> sorted_wrt (\<lambda>a b. c a b < 0) ys
     \<Longrightarrow> set xs = set ys \<Longrightarrow> xs = ys"
proof (induction xs arbitrary: ys)
  case Nil
  then show ?case by simp
next
  case (Cons x xs)
  from Cons.prems obtain y ys' where ys: "ys = y # ys'"
    by (cases ys) auto
  have xS: "x \<in> set zs" and xsS: "set xs \<subseteq> set zs" using Cons.prems by auto
  have yS: "y \<in> set zs" using Cons.prems ys by auto
  have x_all: "\<forall>z \<in> set xs. c x z < 0" and y_all: "\<forall>z \<in> set ys'. c y z < 0"
    using Cons.prems ys by auto
  have xy: "x = y"
  proof (rule ccontr)
    assume ne: "x \<noteq> y"
    then have "x \<in> set ys'" "y \<in> set xs" using Cons.prems(4) ys by auto
    then have "c y x < 0" "c x y < 0" using x_all y_all by auto
    then have "c x x < 0" using ordersStrictly_trans [OF assms xS yS xS] by blast
    then show False using ordersStrictly_irrefl [OF assms xS] by simp
  qed
  have x_notin: "x \<notin> set xs" using x_all ordersStrictly_irrefl [OF assms xS] by blast
  have y_notin: "y \<notin> set ys'" using y_all ordersStrictly_irrefl [OF assms yS] by blast
  have "set xs = set ys'"
    using Cons.prems(4) ys xy x_notin y_notin by auto
  then have "xs = ys'"
    using Cons.IH [of ys'] xsS Cons.prems ys by simp
  then show ?case using xy ys by simp
qed

lemma ordersStrictly_entries:
  assumes "ordersStrictly cmp (map fst es)" "distinct (map fst es)"
  shows "ordersStrictly (\<lambda>a b. cmp (fst a) (fst b)) es"
proof -
  have inj: "a = b" if "a \<in> set es" "b \<in> set es" "fst a = fst b" for a b
    using assms(2) that by (meson distinct_map inj_onD)
  have k: "fst a \<in> set (map fst es)" if "a \<in> set es" for a
    using that by simp
  show ?thesis
    unfolding ordersStrictly_def
  proof (intro ballI conjI impI)
    fix a b assume a: "a \<in> set es" and b: "b \<in> set es"
    show "(cmp (fst a) (fst b) = 0) = (a = b)"
      using assms(1) k [OF a] k [OF b] inj [OF a b] unfolding ordersStrictly_def by blast
    show "(cmp (fst a) (fst b) < 0) = (0 < cmp (fst b) (fst a))"
      using assms(1) k [OF a] k [OF b] unfolding ordersStrictly_def by blast
    fix d assume d: "d \<in> set es" and h: "cmp (fst a) (fst b) < 0 \<and> cmp (fst b) (fst d) < 0"
    show "cmp (fst a) (fst d) < 0"
      using assms(1) k [OF a] k [OF b] k [OF d] h unfolding ordersStrictly_def by blast
  qed
qed

lemma sortedEntries_sorted:
  assumes "ordersStrictly (localeCompare rt) (map fst es)" "distinct (map fst es)"
  shows "sorted_wrt (\<lambda>a b. localeCompare rt (fst a) (fst b) < 0) (sortedEntries rt es)"
proof -
  have "distinct es" using assms(2) by (simp add: distinct_map)
  then show ?thesis
    unfolding sortedEntries_def
    using sorted_sort_cmp [OF ordersStrictly_entries [OF assms], of es] by simp
qed

lemma sortedEntries_eq:
  assumes "ordersStrictly (localeCompare rt) (map fst es)" "distinct (map fst es)"
    and "distinct (map fst es')" "set es' = set es"
  shows "sortedEntries rt es' = sortedEntries rt es"
proof -
  have keys: "set (map fst es') = set (map fst es)"
    by (simp add: assms(4))
  have o': "ordersStrictly (localeCompare rt) (map fst es')"
    using assms(1) unfolding ordersStrictly_def keys .
  have s: "sorted_wrt (\<lambda>a b. localeCompare rt (fst a) (fst b) < 0) (sortedEntries rt es)"
    by (rule sortedEntries_sorted [OF assms(1,2)])
  have s': "sorted_wrt (\<lambda>a b. localeCompare rt (fst a) (fst b) < 0) (sortedEntries rt es')"
    by (rule sortedEntries_sorted [OF o' assms(3)])
  have sets: "set (sortedEntries rt es') = set (sortedEntries rt es)"
    by (simp add: sortedEntries_def set_sort_cmp assms(4))
  have sub: "set (sortedEntries rt es') \<subseteq> set es"
    by (simp add: sortedEntries_def set_sort_cmp assms(4))
  show ?thesis
    by (rule sorted_cmp_unique [OF ordersStrictly_entries [OF assms(1,2)] sub s' s sets])
qed


lemma formatMetricValues_lines:
  "formatMetricValues rt metricName vs =
     join newline
       (map (\<lambda>v. metricName @ ''{''
                 @ join '', '' (map (\<lambda>(key, x). key @ ''='' @ dquote @ x @ dquote)
                                  (sortedEntries rt (labels v)))
                 @ ''} '' @ numberToString rt (val v)) vs)
     @ newline"
  by (simp add: formatMetricValues_def formatLabels_def)

text \<open>
  C3 as the claim states it fails. The two label mappings below hold the same two
  key/value pairs, inserted in the two orders. Their keys are different strings that are
  canonically equivalent, so localeCompare returns 0 on them, the sort (which is stable)
  leaves each mapping in its insertion order, and the two label texts differ; one of them
  is not in the lexicographic order of its keys either.
\<close>

theorem formatMetricValues_sorted_labels_counterexample:
  "eAcute \<noteq> eCombining
   \<and> localeCompare collatingRuntime eAcute eCombining = 0
   \<and> set [(eAcute, ''1''), (eCombining, ''2'')] = set [(eCombining, ''2''), (eAcute, ''1'')]
   \<and> formatLabels collatingRuntime [(eAcute, ''1''), (eCombining, ''2'')]
       = eAcute @ ''='' @ dquote @ ''1'' @ dquote @ '', '' @ eCombining @ ''='' @ dquote @ ''2'' @ dquote
   \<and> formatLabels collatingRuntime [(eCombining, ''2''), (eAcute, ''1'')]
       = eCombining @ ''='' @ dquote @ ''2'' @ dquote @ '', '' @ eAcute @ ''='' @ dquote @ ''1'' @ dquote
   \<and> formatLabels collatingRuntime [(eAcute, ''1''), (eCombining, ''2'')]
       \<noteq> formatLabels collatingRuntime [(eCombining, ''2''), (eAcute, ''1'')]
   \<and> formatMetricValues collatingRuntime ''m'' [\<lparr>labels = [(eAcute, ''1''), (eCombining, ''2'')], val = 3\<rparr>]
       \<noteq> formatMetricValues collatingRuntime ''m'' [\<lparr>labels = [(eCombining, ''2''), (eAcute, ''1'')], val = 3\<rparr>]"
  by (simp add: formatMetricValues_def formatLabels_def sortedEntries_def sort_cmp_def
      collatingRuntime_def eAcute_def eCombining_def dquote_def insert_commute)

text \<open>
  C3, amended. Each line that formatMetricValues emits is the metric name, then in braces
  the point's labels as key="value", joined by a comma and a space, in the order in which
  localeCompare puts their keys, then a space and the number. Where localeCompare orders
  the keys of every point strictly (it is zero on no two different keys), two lists of
  points that agree, point by point, on the set of key/value pairs and on the value, and
  differ only in the order in which the labels were inserted, give the same label text and
  the same output.
\<close>

theorem formatMetricValues_sorted_labels:
  assumes "\<forall>v \<in> set vs. distinct (map fst (labels v))
              \<and> ordersStrictly (localeCompare rt) (map fst (labels v))"
    and "length ws = length vs"
    and "\<forall>i < length vs. distinct (map fst (labels (ws ! i)))
              \<and> set (labels (ws ! i)) = set (labels (vs ! i)) \<and> val (ws ! i) = val (vs ! i)"
  shows "formatMetricValues rt metricName vs =
           join newline
             (map (\<lambda>v. metricName @ ''{''
                       @ join '', '' (map (\<lambda>(key, x). key @ ''='' @ dquote @ x @ dquote)
                                        (sortedEntries rt (labels v)))
                       @ ''} '' @ numberToString rt (val v)) vs)
           @ newline
     \<and> (\<forall>v \<in> set vs.
           sorted_wrt (\<lambda>a b. localeCompare rt (fst a) (fst b) < 0) (sortedEntries rt (labels v))
           \<and> set (sortedEntries rt (labels v)) = set (labels v)
           \<and> length (sortedEntries rt (labels v)) = length (labels v))
     \<and> (\<forall>i < length vs. formatLabels rt (labels (ws ! i)) = formatLabels rt (labels (vs ! i)))
     \<and> formatMetricValues rt metricName ws = formatMetricValues rt metricName vs"
proof -
  have sorted: "sorted_wrt (\<lambda>a b. localeCompare rt (fst a) (fst b) < 0) (sortedEntries rt (labels v))
           \<and> set (sortedEntries rt (labels v)) = set (labels v)
           \<and> length (sortedEntries rt (labels v)) = length (labels v)" if "v \<in> set vs" for v
    using assms(1) that sortedEntries_sorted [of rt "labels v"]
    by (simp add: sortedEntries_def set_sort_cmp length_sort_cmp)
  have entries: "sortedEntries rt (labels (ws ! i)) = sortedEntries rt (labels (vs ! i))"
    if "i < length vs" for i
  proof -
    have "vs ! i \<in> set vs" using that by simp
    then show ?thesis
      using assms(1,3) that sortedEntries_eq [of rt "labels (vs ! i)" "labels (ws ! i)"] by blast
  qed
  then have labs: "formatLabels rt (labels (ws ! i)) = formatLabels rt (labels (vs ! i))"
    if "i < length vs" for i
    using that by (simp add: formatLabels_def)
  have "map (\<lambda>v. metricName @ ''{'' @ formatLabels rt (labels v) @ ''} '' @ numberToString rt (val v)) ws
      = map (\<lambda>v. metricName @ ''{'' @ formatLabels rt (labels v) @ ''} '' @ numberToString rt (val v)) vs"
    using assms(2,3) labs by (intro nth_equalityI) simp_all
  then have out: "formatMetricValues rt metricName ws = formatMetricValues rt metricName vs"
    by (simp add: formatMetricValues_def)
  show ?thesis
    using formatMetricValues_lines [of rt metricName vs] sorted labs out by blast
qed

theorem formatMetricValues_sorted_labels_witness:
  "ordersStrictly (localeCompare (exampleRuntime 0)) [''b'', ''a'']
   \<and> formatLabels (exampleRuntime 0) [(''b'', ''2''), (''a'', ''1'')]
       = ''a='' @ dquote @ ''1'' @ dquote @ '', b='' @ dquote @ ''2'' @ dquote
   \<and> formatLabels (exampleRuntime 0) [(''a'', ''1''), (''b'', ''2'')]
       = formatLabels (exampleRuntime 0) [(''b'', ''2''), (''a'', ''1'')]
   \<and> formatMetricValues (exampleRuntime 0) ''m'' [\<lparr>labels = [(''a'', ''1''), (''b'', ''2'')], val = 3\<rparr>]
       = formatMetricValues (exampleRuntime 0) ''m'' [\<lparr>labels = [(''b'', ''2''), (''a'', ''1'')], val = 3\<rparr>]
   \<and> formatMetricValues (exampleRuntime 0) ''m'' [\<lparr>labels = [(''b'', ''2''), (''a'', ''1'')], val = 3\<rparr>]
       = ''m{a='' @ dquote @ ''1'' @ dquote @ '', b='' @ dquote @ ''2'' @ dquote @ ''} 3'' @ newline"
proof -
  let ?vs = "[\<lparr>labels = [(''b'', ''2''), (''a'', ''1'')], val = (3::int)\<rparr>]"
  let ?ws = "[\<lparr>labels = [(''a'', ''1''), (''b'', ''2'')], val = (3::int)\<rparr>]"
  have o: "ordersStrictly (localeCompare (exampleRuntime 0)) [''b'', ''a'']"
    by (simp add: ordersStrictly_def exampleRuntime_def)
  have h1: "\<forall>v \<in> set ?vs. distinct (map fst (labels v))
              \<and> ordersStrictly (localeCompare (exampleRuntime 0)) (map fst (labels v))"
    using o by simp
  have h2: "length ?ws = length ?vs" by simp
  have h3: "\<forall>i < length ?vs. distinct (map fst (labels (?ws ! i)))
              \<and> set (labels (?ws ! i)) = set (labels (?vs ! i)) \<and> val (?ws ! i) = val (?vs ! i)"
    by auto
  have e1: "formatLabels (exampleRuntime 0) [(''b'', ''2''), (''a'', ''1'')]
       = ''a='' @ dquote @ ''1'' @ dquote @ '', b='' @ dquote @ ''2'' @ dquote"
    by code_simp
  have e2: "formatMetricValues (exampleRuntime 0) ''m'' ?vs
       = ''m{a='' @ dquote @ ''1'' @ dquote @ '', b='' @ dquote @ ''2'' @ dquote @ ''} 3'' @ newline"
    by code_simp
  show ?thesis
    using formatMetricValues_sorted_labels [OF h1 h2 h3, of "''m''"] o e1 e2 by simp
qed

section \<open>The labels of a point\<close>

lemma serviceMapOf_snoc:
  "serviceMapOf (svcs @ [s]) = (serviceMapOf svcs)(svc_id s \<mapsto> s)"
  by (simp add: serviceMapOf_def)

lemma serviceMapOf_none:
  "\<forall>s \<in> set svcs. svc_id s \<noteq> k \<Longrightarrow> serviceMapOf svcs k = None"
proof (induction svcs rule: rev_induct)
  case Nil
  then show ?case by (simp add: serviceMapOf_def)
next
  case (snoc s svcs)
  then show ?case by (auto simp: serviceMapOf_snoc)
qed

lemma serviceMapOf_unique:
  "distinct (map svc_id svcs) \<Longrightarrow> s \<in> set svcs \<Longrightarrow> serviceMapOf svcs (svc_id s) = Some s"
proof (induction svcs rule: rev_induct)
  case Nil
  then show ?case by simp
next
  case (snoc x svcs)
  show ?case
  proof (cases "s = x")
    case True
    then show ?thesis by (simp add: serviceMapOf_snoc)
  next
    case False
    then have "s \<in> set svcs" using snoc.prems by simp
    moreover have "svc_id s \<in> svc_id ` set svcs"
      using \<open>s \<in> set svcs\<close> by (rule imageI)
    then have "svc_id s \<noteq> svc_id x"
      using snoc.prems(1) by auto
    ultimately show ?thesis
      using snoc.IH snoc.prems(1) by (simp add: serviceMapOf_snoc)
  qed
qed

lemma foldl_addLabel_unchanged:
  "\<forall>l \<in> set ls. \<not> (field l = Some k \<and> label_value l \<noteq> None)
     \<Longrightarrow> map_of (foldl addLabel acc ls) k = map_of acc k"
proof (induction ls arbitrary: acc)
  case Nil
  then show ?case by simp
next
  case (Cons l ls)
  have "map_of (addLabel acc l) k = map_of acc k"
    using Cons.prems by (auto simp: map_of_addLabel split: option.split)
  then show ?case using Cons by simp
qed

lemma foldl_addLabel_last_wins:
  assumes "ls = pre @ l # post" "field l = Some f" "f \<noteq> []" "label_value l = Some v"
    and "\<forall>l' \<in> set post. \<not> (field l' = Some f \<and> label_value l' \<noteq> None)"
    and "f \<noteq> ''__proto__''"
  shows "map_of (foldl addLabel acc ls) f = Some v"
proof -
  have "map_of (foldl addLabel acc ls) f = map_of (addLabel (foldl addLabel acc pre) l) f"
    using foldl_addLabel_unchanged [OF assms(5)] assms(1) by simp
  also have "\<dots> = Some v"
    using assms(2-4,6) by (simp add: map_of_addLabel)
  finally show ?thesis .
qed

lemma addLabel_proto: "map_of (addLabel acc l) ''__proto__'' = map_of acc ''__proto__''"
  by (simp add: map_of_addLabel split: option.split)

lemma foldl_addLabel_proto:
  "map_of (foldl addLabel acc ls) ''__proto__'' = map_of acc ''__proto__''"
  by (induction ls arbitrary: acc) (simp_all add: addLabel_proto)

lemma addLabel_distinct:
  "distinct (map fst acc) \<Longrightarrow> distinct (map fst (addLabel acc l))"
  by (simp add: addLabel_def distinct_update split: option.split)

lemma foldl_addLabel_distinct:
  "distinct (map fst acc) \<Longrightarrow> distinct (map fst (foldl addLabel acc ls))"
  by (induction ls arbitrary: acc) (simp_all add: addLabel_distinct)

lemma addLabel_keys:
  "fst ` set (addLabel acc l) \<subseteq>
     fst ` set acc
     \<union> {f. f \<noteq> [] \<and> f \<noteq> ''__proto__'' \<and> field l = Some f \<and> label_value l \<noteq> None}"
  by (auto simp: addLabel_def dom_update split: option.split)

lemma foldl_addLabel_keys:
  "fst ` set (foldl addLabel acc ls) \<subseteq>
     fst ` set acc
     \<union> {f. f \<noteq> [] \<and> f \<noteq> ''__proto__''
            \<and> (\<exists>l \<in> set ls. field l = Some f \<and> label_value l \<noteq> None)}"
proof (induction ls arbitrary: acc)
  case Nil
  then show ?case by simp
next
  case (Cons l ls)
  show ?case
    using Cons.IH [of "addLabel acc l"] addLabel_keys [of acc l] by auto
qed

lemma seriesPoint_survives:
  "(seriesPoint sm m \<noteq> None)
     = (case resp_labels m of None \<Rightarrow> False | Some ls \<Rightarrow> ls \<noteq> [] \<and> resp_values m \<noteq> [])"
  by (simp add: seriesPoint_def Let_def split: option.split)

lemma map_filter_seriesPoint:
  "List.map_filter (seriesPoint sm) series
     = map (the \<circ> seriesPoint sm)
         (filter (\<lambda>m. case resp_labels m of None \<Rightarrow> False | Some ls \<Rightarrow> ls \<noteq> [] \<and> resp_values m \<noteq> [])
            series)"
  unfolding List.map_filter_def seriesPoint_survives ..

lemma seriesPoint_point:
  assumes "resp_labels metric = Some ls" and "ls \<noteq> []" and "resp_values metric \<noteq> []"
  shows "\<exists>p. seriesPoint (serviceMapOf svcs) metric = Some p
     \<and> val p = point_value (last (resp_values metric))
     \<and> distinct (map fst (labels p))
     \<and> (\<forall>pre l post f v.
           ls = pre @ l # post \<and> field l = Some f \<and> f \<noteq> [] \<and> f \<noteq> ''__proto__''
           \<and> label_value l = Some v
           \<and> (\<forall>l' \<in> set post. \<not> (field l' = Some f \<and> label_value l' \<noteq> None))
           \<longrightarrow> map_of (labels p) f = Some v)
     \<and> ((\<forall>l \<in> set ls. \<not> (field l = Some ''unit'' \<and> label_value l \<noteq> None))
           \<longrightarrow> map_of (labels p) ''unit'' = Some (resp_unit metric))
     \<and> ((\<forall>l \<in> set ls. \<not> (field l = Some ''service_name'' \<and> label_value l \<noteq> None))
           \<longrightarrow> (\<forall>rid. rid = orDefault (Option.bind (find (\<lambda>x. field x = Some ''resource'') ls) label_value) []
                 \<longrightarrow> ((\<forall>s \<in> set svcs. svc_id s \<noteq> rid)
                        \<longrightarrow> map_of (labels p) ''service_name'' = Some ''unknown'')
                   \<and> (\<forall>s. distinct (map svc_id svcs) \<and> s \<in> set svcs \<and> svc_id s = rid
                        \<longrightarrow> map_of (labels p) ''service_name''
                             = Some (if svc_name s = [] then ''unknown'' else svc_name s))))
     \<and> (\<forall>k. k \<in> fst ` set (labels p)
           \<longrightarrow> k = ''unit'' \<or> k = ''service_name''
               \<or> (k \<noteq> [] \<and> k \<noteq> ''__proto__''
                   \<and> (\<exists>l \<in> set ls. field l = Some k \<and> label_value l \<noteq> None)))"
proof -
  define rid where "rid = orDefault (Option.bind (find (\<lambda>x. field x = Some ''resource'') ls) label_value) []"
  define sname where "sname = orDefault (map_option svc_name (serviceMapOf svcs rid)) ''unknown''"
  define labels0 where "labels0 = [(''unit'', resp_unit metric), (''service_name'', sname)]"
  define p where "p = \<lparr>labels = foldl addLabel labels0 ls,
                       val = point_value (resp_values metric ! (length (resp_values metric) - 1))\<rparr>"
  have sp: "seriesPoint (serviceMapOf svcs) metric = Some p"
    using assms by (simp add: seriesPoint_def p_def labels0_def sname_def rid_def)
  have v: "val p = point_value (last (resp_values metric))"
    using assms(3) by (simp add: p_def last_conv_nth)
  have d: "distinct (map fst (labels p))"
    by (simp add: p_def labels0_def foldl_addLabel_distinct)
  have copy: "map_of (labels p) f = Some v"
    if "ls = pre @ l # post" "field l = Some f" "f \<noteq> []" "label_value l = Some v"
       "\<forall>l' \<in> set post. \<not> (field l' = Some f \<and> label_value l' \<noteq> None)" "f \<noteq> ''__proto__''"
    for pre l post f v
    using foldl_addLabel_last_wins [OF that] by (simp add: p_def)
  have unit: "map_of (labels p) ''unit'' = Some (resp_unit metric)"
    if "\<forall>l \<in> set ls. \<not> (field l = Some ''unit'' \<and> label_value l \<noteq> None)"
    using foldl_addLabel_unchanged [OF that] by (simp add: p_def labels0_def)
  have sn: "map_of (labels p) ''service_name'' = Some sname"
    if "\<forall>l \<in> set ls. \<not> (field l = Some ''service_name'' \<and> label_value l \<noteq> None)"
    using foldl_addLabel_unchanged [OF that] by (simp add: p_def labels0_def)
  have miss: "sname = ''unknown''" if "\<forall>s \<in> set svcs. svc_id s \<noteq> rid"
    using serviceMapOf_none [OF that] by (simp add: sname_def orDefault_def)
  have hit: "sname = (if svc_name s = [] then ''unknown'' else svc_name s)"
    if "distinct (map svc_id svcs)" "s \<in> set svcs" "svc_id s = rid" for s
    using serviceMapOf_unique [OF that(1,2)] that(3) by (simp add: sname_def orDefault_def)
  have keys: "k = ''unit'' \<or> k = ''service_name''
               \<or> (k \<noteq> [] \<and> k \<noteq> ''__proto__''
                   \<and> (\<exists>l \<in> set ls. field l = Some k \<and> label_value l \<noteq> None))"
    if "k \<in> fst ` set (labels p)" for k
    using that foldl_addLabel_keys [of labels0 ls] by (auto simp: p_def labels0_def)
  show ?thesis
  proof (intro exI [of _ p] conjI allI impI)
    show "seriesPoint (serviceMapOf svcs) metric = Some p" by (rule sp)
    show "val p = point_value (last (resp_values metric))" by (rule v)
    show "distinct (map fst (labels p))" by (rule d)
    show "map_of (labels p) f = Some v"
      if "ls = pre @ l # post \<and> field l = Some f \<and> f \<noteq> [] \<and> f \<noteq> ''__proto__''
           \<and> label_value l = Some v
           \<and> (\<forall>l' \<in> set post. \<not> (field l' = Some f \<and> label_value l' \<noteq> None))"
      for pre l post f v
      using that copy by blast
    show "map_of (labels p) ''unit'' = Some (resp_unit metric)"
      if "\<forall>l \<in> set ls. \<not> (field l = Some ''unit'' \<and> label_value l \<noteq> None)"
      by (rule unit [OF that])
    show "map_of (labels p) ''service_name'' = Some ''unknown''"
      if "\<forall>l \<in> set ls. \<not> (field l = Some ''service_name'' \<and> label_value l \<noteq> None)"
        "r = orDefault (Option.bind (find (\<lambda>x. field x = Some ''resource'') ls) label_value) []"
        "\<forall>s \<in> set svcs. svc_id s \<noteq> r" for r
      using sn [OF that(1)] miss that(2,3) by (simp add: rid_def)
    show "map_of (labels p) ''service_name'' = Some (if svc_name s = [] then ''unknown'' else svc_name s)"
      if "\<forall>l \<in> set ls. \<not> (field l = Some ''service_name'' \<and> label_value l \<noteq> None)"
        "r = orDefault (Option.bind (find (\<lambda>x. field x = Some ''resource'') ls) label_value) []"
        "distinct (map svc_id svcs) \<and> s \<in> set svcs \<and> svc_id s = r" for r s
      using sn [OF that(1)] hit [of s] that(2,3) by (simp add: rid_def)
    show "k = ''unit'' \<or> k = ''service_name''
               \<or> (k \<noteq> [] \<and> k \<noteq> ''__proto__''
                   \<and> (\<exists>l \<in> set ls. field l = Some k \<and> label_value l \<noteq> None))"
      if "k \<in> fst ` set (labels p)" for k
      by (rule keys [OF that])
  qed
qed

lemma collectMetrics_points:
  assumes "chunkArray (map svc_id svcs) bs = Some batches"
    and "promiseAll (map (\<lambda>batch. invoke metricFn tok batch
            (orDefault startTime (toISOString rt (dateNow rt - 2 * 60 * 1000)))) batches) = Inr results"
    and "survivors = filter (\<lambda>m. case resp_labels m of None \<Rightarrow> False
                                  | Some ls \<Rightarrow> ls \<noteq> [] \<and> resp_values m \<noteq> [])
                       (nonNull (concat results))"
    and "survivors \<noteq> []"
  shows "\<exists>w' res. collectMetrics rt w svcs tok bs metricFn d startTime = Some (w', Inr res)
      \<and> result_values res = map (the \<circ> seriesPoint (serviceMapOf svcs)) survivors"
proof -
  have vs: "List.map_filter (seriesPoint (serviceMapOf svcs)) (nonNull (concat results))
      = map (the \<circ> seriesPoint (serviceMapOf svcs)) survivors"
    unfolding assms(3) by (rule map_filter_seriesPoint)
  then have "List.map_filter (seriesPoint (serviceMapOf svcs)) (nonNull (concat results)) \<noteq> []"
    using assms(4) by simp
  then show ?thesis
    using assms(1,2) vs by (simp add: collectMetrics_def Let_def alloc_def)
qed

text \<open>
  C6 as the claim states it fails. In this call of collectMetrics the one resource has the
  empty string as display name, and the one series names it and carries two more labels,
  each with a defined field and a defined value: one whose field is the empty string, one
  whose field is __proto__. The resource is matched and the point is named "unknown", not
  by the display name; neither of the two labels is copied.
\<close>

theorem collectMetrics_point_labels_counterexample:
  "serviceMapOf [\<lparr>svc_id = ''srv-1'', svc_name = []\<rparr>] ''srv-1''
     = Some \<lparr>svc_id = ''srv-1'', svc_name = []\<rparr>
   \<and> map_option snd
        (collectMetrics (exampleRuntime 0) exampleWorld [\<lparr>svc_id = ''srv-1'', svc_name = []\<rparr>]
           ''token'' 50
           (\<lparr>fn_name = ''cpuUsage'',
             invoke = (\<lambda>token ids start. Inr
               [Some \<lparr>resp_unit = ''percent'',
                      resp_labels = Some [\<lparr>field = Some ''resource'', label_value = Some ''srv-1''\<rparr>,
                                          \<lparr>field = Some [], label_value = Some ''x''\<rparr>,
                                          \<lparr>field = Some ''__proto__'', label_value = Some ''y''\<rparr>],
                      resp_values = [\<lparr>timestamp = ''t'', point_value = 5\<rparr>]\<rparr>])\<rparr>
              :: (string, int) MetricFn)
           0 None)
       = Some (Inr \<lparr>definition_ref = 1,
                    result_values =
                      [\<lparr>labels = [(''unit'', ''percent''), (''service_name'', ''unknown''),
                                  (''resource'', ''srv-1'')],
                        val = 5\<rparr>]\<rparr>)"
  by (simp add: collectMetrics_def chunkArray_def chunkLoop.simps slice_def exampleWorld_def
      seriesPoint_def serviceMapOf_def orDefault_def addLabel_def alloc_def)

text \<open>
  C6, amended. In a call of collectMetrics whose batch queries all fulfil, the series that
  have labels and data points give the points of the result, one each, in the order
  returned (also a series whose resource matches nothing). The point of a series has the
  value of the series' last data point. Every upstream label with a non-empty field other
  than __proto__ and a defined value is copied into the label mapping, a later label of the
  same field replacing an earlier one; so an upstream label whose field is unit or
  service_name replaces the value set beforehand. Without such a label, unit is the
  series' unit, and service_name is found from the value of the first label whose field is
  resource: "unknown" when no resource has that id, and otherwise (ids being unique) the
  display name of the resource with that id, or "unknown" when that name is empty. The
  mapping has no other keys.
\<close>

theorem collectMetrics_point_labels:
  assumes "chunkArray (map svc_id svcs) bs = Some batches"
    and "promiseAll (map (\<lambda>batch. invoke metricFn tok batch
            (orDefault startTime (toISOString rt (dateNow rt - 2 * 60 * 1000)))) batches) = Inr results"
    and "survivors = filter (\<lambda>m. case resp_labels m of None \<Rightarrow> False
                                  | Some ls \<Rightarrow> ls \<noteq> [] \<and> resp_values m \<noteq> [])
                       (nonNull (concat results))"
    and "i < length survivors"
    and "resp_labels (survivors ! i) = Some ls"
  shows "\<exists>w' res p. collectMetrics rt w svcs tok bs metricFn d startTime = Some (w', Inr res)
     \<and> length (result_values res) = length survivors
     \<and> result_values res ! i = p
     \<and> val p = point_value (last (resp_values (survivors ! i)))
     \<and> distinct (map fst (labels p))
     \<and> (\<forall>pre l post f v.
           ls = pre @ l # post \<and> field l = Some f \<and> f \<noteq> [] \<and> f \<noteq> ''__proto__''
           \<and> label_value l = Some v
           \<and> (\<forall>l' \<in> set post. \<not> (field l' = Some f \<and> label_value l' \<noteq> None))
           \<longrightarrow> map_of (labels p) f = Some v)
     \<and> ((\<forall>l \<in> set ls. \<not> (field l = Some ''unit'' \<and> label_value l \<noteq> None))
           \<longrightarrow> map_of (labels p) ''unit'' = Some (resp_unit (survivors ! i)))
     \<and> ((\<forall>l \<in> set ls. \<not> (field l = Some ''service_name'' \<and> label_value l \<noteq> None))
           \<longrightarrow> (\<forall>rid. rid = orDefault (Option.bind (find (\<lambda>x. field x = Some ''resource'') ls) label_value) []
                 \<longrightarrow> ((\<forall>s \<in> set svcs. svc_id s \<noteq> rid)
                        \<longrightarrow> map_of (labels p) ''service_name'' = Some ''unknown'')
                   \<and> (\<forall>s. distinct (map svc_id svcs) \<and> s \<in> set svcs \<and> svc_id s = rid
                        \<longrightarrow> map_of (labels p) ''service_name''
                             = Some (if svc_name s = [] then ''unknown'' else svc_name s))))
     \<and> (\<forall>k. k \<in> fst ` set (labels p)
           \<longrightarrow> k = ''unit'' \<or> k = ''service_name''
               \<or> (k \<noteq> [] \<and> k \<noteq> ''__proto__''
                   \<and> (\<exists>l \<in> set ls. field l = Some k \<and> label_value l \<noteq> None)))"
proof -
  let ?m = "survivors ! i"
  have ne: "survivors \<noteq> []" using assms(4) by auto
  obtain w' res where c: "collectMetrics rt w svcs tok bs metricFn d startTime = Some (w', Inr res)"
    and vs: "result_values res = map (the \<circ> seriesPoint (serviceMapOf svcs)) survivors"
    using collectMetrics_points [OF assms(1-3) ne] by blast
  have len: "length (result_values res) = length survivors"
    by (simp add: vs)
  have "?m \<in> set survivors" using assms(4) by simp
  then have "case resp_labels ?m of None \<Rightarrow> False | Some ls \<Rightarrow> ls \<noteq> [] \<and> resp_values ?m \<noteq> []"
    unfolding assms(3) by simp
  then have l: "ls \<noteq> []" and v: "resp_values ?m \<noteq> []"
    using assms(5) by simp_all
  have nth: "result_values res ! i = the (seriesPoint (serviceMapOf svcs) ?m)"
    using assms(4) by (simp add: vs)
  from seriesPoint_point [OF assms(5) l v, of svcs]
  obtain p where sp: "seriesPoint (serviceMapOf svcs) ?m = Some p"
    and rest: "val p = point_value (last (resp_values ?m))
     \<and> distinct (map fst (labels p))
     \<and> (\<forall>pre l post f v.
           ls = pre @ l # post \<and> field l = Some f \<and> f \<noteq> [] \<and> f \<noteq> ''__proto__''
           \<and> label_value l = Some v
           \<and> (\<forall>l' \<in> set post. \<not> (field l' = Some f \<and> label_value l' \<noteq> None))
           \<longrightarrow> map_of (labels p) f = Some v)
     \<and> ((\<forall>l \<in> set ls. \<not> (field l = Some ''unit'' \<and> label_value l \<noteq> None))
           \<longrightarrow> map_of (labels p) ''unit'' = Some (resp_unit ?m))
     \<and> ((\<forall>l \<in> set ls. \<not> (field l = Some ''service_name'' \<and> label_value l \<noteq> None))
           \<longrightarrow> (\<forall>rid. rid = orDefault (Option.bind (find (\<lambda>x. field x = Some ''resource'') ls) label_value) []
                 \<longrightarrow> ((\<forall>s \<in> set svcs. svc_id s \<noteq> rid)
                        \<longrightarrow> map_of (labels p) ''service_name'' = Some ''unknown'')
                   \<and> (\<forall>s. distinct (map svc_id svcs) \<and> s \<in> set svcs \<and> svc_id s = rid
                        \<longrightarrow> map_of (labels p) ''service_name''
                             = Some (if svc_name s = [] then ''unknown'' else svc_name s))))
     \<and> (\<forall>k. k \<in> fst ` set (labels p)
           \<longrightarrow> k = ''unit'' \<or> k = ''service_name''
               \<or> (k \<noteq> [] \<and> k \<noteq> ''__proto__''
                   \<and> (\<exists>l \<in> set ls. field l = Some k \<and> label_value l \<noteq> None)))"
    by (elim exE conjE) (rule that, assumption, intro conjI, assumption+)
  have p: "result_values res ! i = p"
    using nth sp by simp
  show ?thesis
    by (intro exI [of _ w'] exI [of _ res] exI [of _ p] conjI c len p rest)
qed

theorem collectMetrics_point_labels_witness:
  "chunkArray (map svc_id exampleServices) 50 = Some [[''srv-1'', ''red-1'']]
   \<and> (\<exists>w' res. collectMetrics (exampleRuntime 0) exampleWorld exampleServices ''token'' 50
                   exampleMixed 0 None = Some (w', Inr res)
        \<and> length (result_values res) = 2
        \<and> val (result_values res ! 0) = 5
        \<and> map_of (labels (result_values res ! 0)) ''resource'' = Some ''srv-1''
        \<and> map_of (labels (result_values res ! 0)) ''unit'' = Some ''ratio''
        \<and> map_of (labels (result_values res ! 0)) ''service_name'' = Some ''web''
        \<and> val (result_values res ! 1) = 7
        \<and> map_of (labels (result_values res ! 1)) ''unit'' = Some ''percent''
        \<and> map_of (labels (result_values res ! 1)) ''service_name'' = Some ''unknown'')"
proof -
  let ?res = "\<lparr>field = Some ''resource'', label_value = Some ''srv-1''\<rparr>"
  let ?unit = "\<lparr>field = Some ''unit'', label_value = Some ''ratio''\<rparr>"
  let ?m = "\<lparr>resp_unit = ''percent'', resp_labels = Some [?res, ?unit],
            resp_values = [\<lparr>timestamp = ''t0'', point_value = (1::int)\<rparr>,
                           \<lparr>timestamp = ''t1'', point_value = 5\<rparr>]\<rparr>"
  let ?skipped = "\<lparr>resp_unit = ''percent'', resp_labels = Some [], resp_values = ([] :: int DataPoint list)\<rparr>"
  let ?res9 = "\<lparr>field = Some ''resource'', label_value = Some ''srv-9''\<rparr>"
  let ?m9 = "\<lparr>resp_unit = ''percent'', resp_labels = Some [?res9],
            resp_values = [\<lparr>timestamp = ''t0'', point_value = (7::int)\<rparr>]\<rparr>"
  let ?web = "\<lparr>svc_id = ''srv-1'', svc_name = ''web''\<rparr>"
  let ?call = "collectMetrics (exampleRuntime 0) exampleWorld exampleServices ''token'' 50
                 exampleMixed 0 None"
  have ids: "distinct (map svc_id exampleServices) \<and> ?web \<in> set exampleServices"
    by (simp add: exampleServices_def)
  have h1: "chunkArray (map svc_id exampleServices) 50 = Some [[''srv-1'', ''red-1'']]"
    by (simp add: chunkArray_def chunkLoop.simps slice_def exampleServices_def)
  have h2: "promiseAll (map (\<lambda>batch. invoke exampleMixed ''token'' batch
              (orDefault None (toISOString (exampleRuntime 0) (dateNow (exampleRuntime 0) - 2 * 60 * 1000))))
              [[''srv-1'', ''red-1'']]) = Inr [[Some ?m, None, Some ?skipped, Some ?m9]]"
    by (simp add: exampleMixed_def)
  have h3: "[?m, ?m9] = filter (\<lambda>m. case resp_labels m of None \<Rightarrow> False
                                  | Some ls \<Rightarrow> ls \<noteq> [] \<and> resp_values m \<noteq> [])
                       (nonNull (concat [[Some ?m, None, Some ?skipped, Some ?m9]]))"
    by simp
  have i0: "0 < length [?m, ?m9]" and i1: "1 < length [?m, ?m9]" by simp_all
  have l0: "resp_labels ([?m, ?m9] ! 0) = Some [?res, ?unit]"
    and l1: "resp_labels ([?m, ?m9] ! 1) = Some [?res9]" by simp_all
  obtain w' res p where c: "?call = Some (w', Inr res)"
    and len: "length (result_values res) = length [?m, ?m9]"
    and p: "result_values res ! 0 = p"
    and v: "val p = point_value (last (resp_values ([?m, ?m9] ! 0)))"
    and copy: "\<forall>pre l post f v.
           [?res, ?unit] = pre @ l # post \<and> field l = Some f \<and> f \<noteq> [] \<and> f \<noteq> ''__proto__''
           \<and> label_value l = Some v
           \<and> (\<forall>l' \<in> set post. \<not> (field l' = Some f \<and> label_value l' \<noteq> None))
           \<longrightarrow> map_of (labels p) f = Some v"
    and sn: "(\<forall>l \<in> set [?res, ?unit]. \<not> (field l = Some ''service_name'' \<and> label_value l \<noteq> None))
           \<longrightarrow> (\<forall>rid. rid = orDefault (Option.bind (find (\<lambda>x. field x = Some ''resource'') [?res, ?unit]) label_value) []
                 \<longrightarrow> ((\<forall>s \<in> set exampleServices. svc_id s \<noteq> rid)
                        \<longrightarrow> map_of (labels p) ''service_name'' = Some ''unknown'')
                   \<and> (\<forall>s. distinct (map svc_id exampleServices) \<and> s \<in> set exampleServices \<and> svc_id s = rid
                        \<longrightarrow> map_of (labels p) ''service_name''
                             = Some (if svc_name s = [] then ''unknown'' else svc_name s)))"
    using collectMetrics_point_labels [OF h1 h2 h3 i0 l0, of exampleWorld 0]
    by (elim exE conjE) (rule that, assumption+)
  have r0: "val p = 5" using v by simp
  have r1: "map_of (labels p) ''resource'' = Some ''srv-1''"
    using copy [rule_format, of "[]" ?res "[?unit]" "''resource''" "''srv-1''"] by simp
  have r2: "map_of (labels p) ''unit'' = Some ''ratio''"
    using copy [rule_format, of "[?res]" ?unit "[]" "''unit''" "''ratio''"] by simp
  from sn have "\<forall>s. distinct (map svc_id exampleServices) \<and> s \<in> set exampleServices
        \<and> svc_id s = ''srv-1''
        \<longrightarrow> map_of (labels p) ''service_name'' = Some (if svc_name s = [] then ''unknown'' else svc_name s)"
    by (simp add: orDefault_def)
  from this [rule_format, of ?web] ids
  have r3: "map_of (labels p) ''service_name'' = Some ''web''"
    by simp
  obtain w'' res' q where c': "?call = Some (w'', Inr res')"
    and q: "result_values res' ! 1 = q"
    and v9: "val q = point_value (last (resp_values ([?m, ?m9] ! 1)))"
    and unit9: "(\<forall>l \<in> set [?res9]. \<not> (field l = Some ''unit'' \<and> label_value l \<noteq> None))
           \<longrightarrow> map_of (labels q) ''unit'' = Some (resp_unit ([?m, ?m9] ! 1))"
    and sn9: "(\<forall>l \<in> set [?res9]. \<not> (field l = Some ''service_name'' \<and> label_value l \<noteq> None))
           \<longrightarrow> (\<forall>rid. rid = orDefault (Option.bind (find (\<lambda>x. field x = Some ''resource'') [?res9]) label_value) []
                 \<longrightarrow> ((\<forall>s \<in> set exampleServices. svc_id s \<noteq> rid)
                        \<longrightarrow> map_of (labels q) ''service_name'' = Some ''unknown'')
                   \<and> (\<forall>s. distinct (map svc_id exampleServices) \<and> s \<in> set exampleServices \<and> svc_id s = rid
                        \<longrightarrow> map_of (labels q) ''service_name''
                             = Some (if svc_name s = [] then ''unknown'' else svc_name s)))"
    using collectMetrics_point_labels [OF h1 h2 h3 i1 l1, of exampleWorld 0]
    by (elim exE conjE) (rule that, assumption+)
  have same: "res' = res" using c c' by simp
  have q0: "val q = 7" using v9 by simp
  have q1: "map_of (labels q) ''unit'' = Some ''percent''"
    using unit9 by simp
  have q2: "map_of (labels q) ''service_name'' = Some ''unknown''"
    using sn9 by (simp add: orDefault_def exampleServices_def)
  have "length (result_values res) = 2" using len by simp
  then have "\<exists>w' res. ?call = Some (w', Inr res)
        \<and> length (result_values res) = 2
        \<and> val (result_values res ! 0) = 5
        \<and> map_of (labels (result_values res ! 0)) ''resource'' = Some ''srv-1''
        \<and> map_of (labels (result_values res ! 0)) ''unit'' = Some ''ratio''
        \<and> map_of (labels (result_values res ! 0)) ''service_name'' = Some ''web''
        \<and> val (result_values res ! 1) = 7
        \<and> map_of (labels (result_values res ! 1)) ''unit'' = Some ''percent''
        \<and> map_of (labels (result_values res ! 1)) ''service_name'' = Some ''unknown''"
    using c p r0 r1 r2 r3 q [unfolded same] q0 q1 q2
    by (intro exI [of _ w'] exI [of _ res]) simp
  then show ?thesis using h1 by (intro conjI)
qed

section \<open>The cache when a refresh fails\<close>

lemma refreshResources_failed:
  "snd (refreshResources api now c) = Inl e \<Longrightarrow> fst (refreshResources api now c) = c"
  by (auto simp: refreshResources_def split: sum.splits)

lemma refreshResources_settles:
  "(\<exists>e. refreshResources api now c = (c, Inl e))
   \<or> snd (refreshResources api now c) = Inr ()"
  by (auto simp: refreshResources_def split: sum.splits)

lemma getResources_snapshot:
  "snd (getResources now c) = (services c, redises c, postgreses c)"
  by (simp add: getResources_def)

lemma getResources_keeps:
  "services (fst (getResources now c)) = services c
   \<and> redises (fst (getResources now c)) = redises c
   \<and> postgreses (fst (getResources now c)) = postgreses c
   \<and> lastRefreshed (fst (getResources now c)) = lastRefreshed c"
  by (simp add: getResources_def)

lemma run_failed_refresh:
  assumes "0 < scheduled c"
    and "snd (refreshResources api now (c\<lparr>scheduled := scheduled c - 1\<rparr>)) = Inl e"
  shows "run (TimerFires api now # evs) c = (None, [Settled (Inl e)])"
  using assms by (cases "refreshResources api now (c\<lparr>scheduled := scheduled c - 1\<rparr>)") simp

lemma run_alive_snapshot:
  "run (Get now # evs) c
     = (fst (run evs (fst (getResources now c))),
        Returned (services c, redises c, postgreses c) # snd (run evs (fst (getResources now c))))"
  by (simp add: getResources_def split: prod.split)


end
